theory Spec2Isabelle
  imports Complex_Main
begin

section \<open>Python values used by the layer reader\<close>

text \<open>
  The reader in \<^verbatim>\<open>GDSII_Reader.py\<close> works on text, on dictionaries and on the
  builtin conversions \<^verbatim>\<open>int\<close> and \<^verbatim>\<open>'%d' % n\<close>. Text is modelled as
  \<^typ>\<open>string\<close>; the model covers ASCII text, where a character is one code point.
  Exceptions are values of \<open>py_error\<close>.
\<close>

datatype py_error = KeyError | TypeError | ValueError | OverflowError

subsection \<open>\<^verbatim>\<open>str.strip\<close>, \<^verbatim>\<open>str.split\<close>, \<^verbatim>\<open>str.startswith\<close>\<close>

text \<open>The ASCII characters for which \<^verbatim>\<open>str.isspace\<close> is true: tab, line feed,
  vertical tab, form feed, carriage return, the four separators 0x1C to 0x1F and space.\<close>

definition is_space :: "char \<Rightarrow> bool" where
  "is_space c = (c \<in> set [CHR 0x09, CHR 0x0A, CHR 0x0B, CHR 0x0C, CHR 0x0D,
                          CHR 0x1C, CHR 0x1D, CHR 0x1E, CHR 0x1F, CHR 0x20])"

definition strip :: "string \<Rightarrow> string" where
  "strip s = rev (dropWhile is_space (rev (dropWhile is_space s)))"

text \<open>\<^verbatim>\<open>s.split()\<close>: the maximal runs of characters that are not white space;
  \<open>cur\<close> is the run being read.\<close>

fun split_from :: "string \<Rightarrow> string \<Rightarrow> string list" where
  "split_from cur [] = (if cur = [] then [] else [cur])"
| "split_from cur (c # cs) =
     (if is_space c then (if cur = [] then split_from [] cs else cur # split_from [] cs)
      else split_from (cur @ [c]) cs)"

definition split :: "string \<Rightarrow> string list" where
  "split s = split_from [] s"

definition startswith_hash :: "string \<Rightarrow> bool" where
  "startswith_hash s = (case s of [] \<Rightarrow> False | c # _ \<Rightarrow> c = CHR ''#'')"

subsection \<open>\<^verbatim>\<open>int(s)\<close> and \<^verbatim>\<open>'%d' % n\<close>\<close>

definition is_digit :: "char \<Rightarrow> bool" where
  "is_digit c = (48 \<le> (of_char c :: nat) \<and> (of_char c :: nat) \<le> 57)"

definition digit_val :: "char \<Rightarrow> nat" where
  "digit_val c = of_char c - 48"

text \<open>The digits after the first one: a single underscore may stand between two digits.\<close>

fun int_digits :: "string \<Rightarrow> nat \<Rightarrow> nat option" where
  "int_digits [] acc = Some acc"
| "int_digits [c] acc = (if is_digit c then Some (10 * acc + digit_val c) else None)"
| "int_digits (c # d # ds) acc =
     (if is_digit c then int_digits (d # ds) (10 * acc + digit_val c)
      else if c = CHR ''_'' \<and> is_digit d then int_digits ds (10 * acc + digit_val d)
      else None)"

definition unsigned :: "string \<Rightarrow> nat option" where
  "unsigned s = (case s of [] \<Rightarrow> None
                 | d # ds \<Rightarrow> if is_digit d then int_digits ds (digit_val d) else None)"

text \<open>\<^verbatim>\<open>int(s)\<close> for a string: white space around the literal is dropped, a sign may
  come first; anything else raises \<^verbatim>\<open>ValueError\<close>, the value \<open>None\<close> here.\<close>

definition py_int :: "string \<Rightarrow> int option" where
  "py_int s =
     (case strip s of
        [] \<Rightarrow> None
      | c # cs \<Rightarrow>
          if c = CHR ''-'' then map_option (\<lambda>n. - int n) (unsigned cs)
          else if c = CHR ''+'' then map_option int (unsigned cs)
          else map_option int (unsigned (c # cs)))"

definition digit_char :: "nat \<Rightarrow> char" where
  "digit_char n = char_of (48 + n)"

fun digits_of :: "nat \<Rightarrow> string" where
  "digits_of n = (if n < 10 then [digit_char n] else digits_of (n div 10) @ [digit_char (n mod 10)])"

declare digits_of.simps [simp del]

text \<open>\<^verbatim>\<open>'%d' % n\<close> for an integer \<open>n\<close>.\<close>

definition fmt_d :: "int \<Rightarrow> string" where
  "fmt_d n = (if n < 0 then CHR ''-'' # digits_of (nat (- n)) else digits_of (nat n))"

subsection \<open>Dictionaries\<close>

text \<open>A \<^verbatim>\<open>dict\<close> keeps its keys in insertion order: it is an association list.
  Assigning to a key that is present replaces the value in place, assigning to a new key
  appends the entry. Lookup is \<^const>\<open>map_of\<close>.\<close>

fun dict_set :: "'k \<Rightarrow> 'v \<Rightarrow> ('k \<times> 'v) list \<Rightarrow> ('k \<times> 'v) list" where
  "dict_set k v [] = [(k, v)]"
| "dict_set k v ((k', v') # d) = (if k = k' then (k, v) # d else (k', v') # dict_set k v d)"

section \<open>The layer reader\<close>

text \<open>
  One entry of \<^verbatim>\<open>self.layers\<close>. The keys \<^verbatim>\<open>'color'\<close>, \<^verbatim>\<open>'bottom'\<close> and
  \<^verbatim>\<open>'top'\<close> exist only once a colour row has been merged: \<open>None\<close> is a missing key,
  \<open>Some None\<close> the key holding \<^verbatim>\<open>None\<close>.
\<close>

record layer_info =
  name :: string
  purpose :: string
  name_gdsii_num :: "int option"
  purpose_gdsii_num :: "int option"
  description :: string
  color :: "string option"
  bottom_val :: "int option option"
  top_val :: "int option option"

datatype source_file = MappingFile | DefFile | ColorFile

text \<open>The lines the reader prints.\<close>

datatype message =
    NotFound source_file
  | InvalidLine nat string
  | NoMapping string string
  | ErrorReading source_file py_error

record reader =
  layer_mapping :: "((string \<times> string) \<times> (int \<times> int)) list"
  layers :: "(string \<times> layer_info) list"
  printed :: "message list"

text \<open>A row of \<^verbatim>\<open>csv.DictReader\<close>: \<^verbatim>\<open>row.get(c)\<close> is \<open>None\<close> for a column the
  header lacks and for a cell a short row lacks.\<close>

type_synonym csv_row = "string \<rightharpoonup> string"

text \<open>\<^verbatim>\<open>v or d\<close> for \<open>v\<close> a string or \<^verbatim>\<open>None\<close>: \<^verbatim>\<open>None\<close> and the empty string
  are both false.\<close>

definition or_else :: "string option \<Rightarrow> string \<Rightarrow> string" where
  "or_else v d = (case v of None \<Rightarrow> d | Some s \<Rightarrow> if s = [] then d else s)"

subsection \<open>\<^verbatim>\<open>_load_layer_mapping\<close>\<close>

text \<open>
  The body of the \<^verbatim>\<open>for\<close> loop over the lines, numbered from \<open>line_num\<close>. The result
  is the exception that left the loop, if any, and the reader as the loop left it: the
  entries stored before an exception stay.
\<close>

fun mapping_lines :: "nat \<Rightarrow> string list \<Rightarrow> reader \<Rightarrow> py_error option \<times> reader" where
  "mapping_lines line_num [] st = (None, st)"
| "mapping_lines line_num (l # ls) st =
     (let line = strip l in
      if line = [] \<or> startswith_hash line then mapping_lines (Suc line_num) ls st
      else
        let parts = split line in
        if length parts \<ge> 4 then
          (case py_int (parts ! 2) of
             None \<Rightarrow> (Some ValueError, st)
           | Some layer_number \<Rightarrow>
               (case py_int (parts ! 3) of
                  None \<Rightarrow> (Some ValueError, st)
                | Some dtype \<Rightarrow>
                    mapping_lines (Suc line_num) ls
                      (st\<lparr>layer_mapping :=
                           dict_set (parts ! 0, parts ! 1) (layer_number, dtype)
                             (layer_mapping st)\<rparr>)))
        else mapping_lines (Suc line_num) ls
               (st\<lparr>printed := printed st @ [InvalidLine line_num line]\<rparr>))"

text \<open>The file is \<open>None\<close> when the path does not exist, and its lines otherwise. An
  error of the file system while the lines are read would end the loop like the
  \<^verbatim>\<open>ValueError\<close> does; it is not modelled.\<close>

definition load_layer_mapping :: "string list option \<Rightarrow> reader \<Rightarrow> reader" where
  "load_layer_mapping file st0 =
     (let st = st0\<lparr>layer_mapping := []\<rparr> in
      case file of
        None \<Rightarrow> st\<lparr>printed := printed st @ [NotFound MappingFile]\<rparr>
      | Some ls \<Rightarrow>
          (case mapping_lines 1 ls st of
             (None, st') \<Rightarrow> st'
           | (Some e, st') \<Rightarrow> st'\<lparr>printed := printed st' @ [ErrorReading MappingFile e]\<rparr>))"

subsection \<open>\<^verbatim>\<open>_load_layer_def\<close>\<close>

definition def_row :: "csv_row \<Rightarrow> reader \<Rightarrow> reader" where
  "def_row row st =
     (let layer_key = strip (or_else (row ''layer'') (or_else (row ''ascell'') []));
          name = strip (or_else (row ''name'') []);
          purpose = strip (or_else (row ''purpose'') []);
          description = strip (or_else (row ''description'') [])
      in
      if layer_key = [] \<or> name = [] \<or> purpose = [] then st
      else
        (case map_of (layer_mapping st) (name, purpose) of
           None \<Rightarrow> st\<lparr>printed := printed st @ [NoMapping name purpose]\<rparr>
         | Some (layer_number, dtype) \<Rightarrow>
             st\<lparr>layers :=
                  dict_set layer_key
                    \<lparr>name = name, purpose = purpose,
                     name_gdsii_num = Some layer_number, purpose_gdsii_num = Some dtype,
                     description = description,
                     color = None, bottom_val = None, top_val = None\<rparr>
                    (layers st)\<rparr>))"

definition load_layer_def :: "csv_row list option \<Rightarrow> reader \<Rightarrow> reader" where
  "load_layer_def file st =
     (case file of
        None \<Rightarrow> st\<lparr>printed := printed st @ [NotFound DefFile]\<rparr>
      | Some rows \<Rightarrow> fold def_row rows st)"

subsection \<open>\<^verbatim>\<open>_load_layer_color\<close>\<close>

text \<open>
  \<^verbatim>\<open>int(float(s))\<close> is Python's own; the loader takes it as the parameter \<open>to_int\<close>,
  which is \<open>None\<close> where the conversion raises. \<open>coerce\<close> is the guarded expression
  \<^verbatim>\<open>int(float(v)) if v not in (None, '') else None\<close> inside its \<^verbatim>\<open>try\<close>.
\<close>

definition coerce :: "(string \<Rightarrow> int option) \<Rightarrow> string option \<Rightarrow> int option" where
  "coerce to_int v = (case v of None \<Rightarrow> None | Some s \<Rightarrow> if s = [] then None else to_int s)"

definition minimal_entry :: layer_info where
  "minimal_entry =
     \<lparr>name = [], purpose = [], name_gdsii_num = None, purpose_gdsii_num = None,
      description = [], color = None, bottom_val = None, top_val = None\<rparr>"

definition color_row :: "(string \<Rightarrow> int option) \<Rightarrow> csv_row \<Rightarrow> reader \<Rightarrow> reader" where
  "color_row to_int row st =
     (let layer_key = strip (or_else (row ''layer'') []);
          color = strip (or_else (row ''color'') []);
          bottom = row ''bottom'';
          top = row ''top''
      in
      if layer_key = [] then st
      else
        let bottom_val = coerce to_int bottom;
            top_val = coerce to_int top;
            entry = (case map_of (layers st) layer_key of
                       None \<Rightarrow> minimal_entry
                     | Some e \<Rightarrow> e)
        in st\<lparr>layers :=
                dict_set layer_key
                  (entry\<lparr>color := Some color, bottom_val := Some bottom_val,
                         top_val := Some top_val\<rparr>)
                  (layers st)\<rparr>)"

definition load_layer_color ::
  "(string \<Rightarrow> int option) \<Rightarrow> csv_row list option \<Rightarrow> reader \<Rightarrow> reader" where
  "load_layer_color to_int file st =
     (case file of None \<Rightarrow> st | Some rows \<Rightarrow> fold (color_row to_int) rows st)"

subsection \<open>\<^verbatim>\<open>LayerReader.__init__\<close>\<close>

definition new_reader :: reader where
  "new_reader = \<lparr>layer_mapping = [], layers = [], printed = []\<rparr>"

definition LayerReader ::
  "(string \<Rightarrow> int option) \<Rightarrow> csv_row list option \<Rightarrow> csv_row list option \<Rightarrow>
   string list option \<Rightarrow> reader" where
  "LayerReader to_int layer_def_file layer_color_file layer_mapping_file =
     load_layer_color to_int layer_color_file
       (load_layer_def layer_def_file
          (load_layer_mapping layer_mapping_file new_reader))"

subsection \<open>\<^verbatim>\<open>get_klayoutlayer_index\<close> and \<^verbatim>\<open>gen_layer2index\<close>\<close>

text \<open>\<^verbatim>\<open>'%d/%d' % (a, b)\<close>: a \<^verbatim>\<open>TypeError\<close> when one of the two is \<^verbatim>\<open>None\<close>.\<close>

definition fmt_pair :: "int option \<Rightarrow> int option \<Rightarrow> py_error + string" where
  "fmt_pair a b =
     (case a of
        None \<Rightarrow> Inl TypeError
      | Some x \<Rightarrow> (case b of None \<Rightarrow> Inl TypeError | Some y \<Rightarrow> Inr (fmt_d x @ ''/'' @ fmt_d y)))"

definition get_klayoutlayer_index :: "reader \<Rightarrow> string \<Rightarrow> py_error + string" where
  "get_klayoutlayer_index st layer_key =
     (case map_of (layers st) layer_key of
        None \<Rightarrow> Inl KeyError
      | Some e \<Rightarrow> fmt_pair (name_gdsii_num e) (purpose_gdsii_num e))"

fun layer2index_items ::
  "(string \<times> layer_info) list \<Rightarrow> (string \<times> string) list \<Rightarrow> py_error + (string \<times> string) list" where
  "layer2index_items [] layer2index = Inr layer2index"
| "layer2index_items ((k, v) # items) layer2index =
     (case fmt_pair (name_gdsii_num v) (purpose_gdsii_num v) of
        Inl e \<Rightarrow> Inl e
      | Inr s \<Rightarrow> layer2index_items items (dict_set k s layer2index))"

definition gen_layer2index :: "reader \<Rightarrow> py_error + (string \<times> string) list" where
  "gen_layer2index st = layer2index_items (layers st) []"

section \<open>The renderer's height table\<close>

text \<open>
  \<^verbatim>\<open>model_main.py\<close> derives \<^verbatim>\<open>bottom_top[key] = (z0, height)\<close> from every entry, with
  \<^verbatim>\<open>float(b) * z_scale\<close> and \<^verbatim>\<open>float(t - b) * z_scale\<close>. Every float of this
  computation is an integer or an infinity: \<^verbatim>\<open>float(n)\<close> of an integer is the integer
  rounded to 53 significant bits, and so is its product with \<open>100.0\<close>. A float is
  therefore modelled by the integer it holds, or an infinity.
\<close>

datatype pyfloat = Fin int | PosInf | NegInf

fun bit_length :: "nat \<Rightarrow> nat" where
  "bit_length n = (if n = 0 then 0 else Suc (bit_length (n div 2)))"

declare bit_length.simps [simp del]

text \<open>Rounding to 53 significant bits, to nearest and to even on a tie, as IEEE 754
  binary64 arithmetic and the conversion of an integer do.\<close>

definition round_nat53 :: "nat \<Rightarrow> nat" where
  "round_nat53 n =
     (if n < 2 ^ 53 then n
      else
        let k = bit_length n - 53;
            q = n div 2 ^ k;
            r = n mod 2 ^ k;
            half = 2 ^ (k - 1)
        in (if r > half \<or> (r = half \<and> odd q) then q + 1 else q) * 2 ^ k)"

definition round53 :: "int \<Rightarrow> int" where
  "round53 n = (if n < 0 then - int (round_nat53 (nat (- n))) else int (round_nat53 (nat n)))"

text \<open>\<^verbatim>\<open>float(n)\<close> for an integer: \<^verbatim>\<open>OverflowError\<close> when the rounded value is beyond
  the largest float.\<close>

definition py_float :: "int \<Rightarrow> py_error + pyfloat" where
  "py_float n = (if \<bar>round53 n\<bar> \<ge> 2 ^ 1024 then Inl OverflowError else Inr (Fin (round53 n)))"

text \<open>The product of two floats: rounded, and an infinity when the rounded value is beyond
  the largest float. The products \<open>0 * inf\<close>, which are not numbers, do not occur: the
  scale is \<open>100.0\<close>.\<close>

definition float_of_product :: "int \<Rightarrow> pyfloat" where
  "float_of_product p =
     (if \<bar>round53 p\<bar> \<ge> 2 ^ 1024 then (if p < 0 then NegInf else PosInf) else Fin (round53 p))"

fun float_mul :: "pyfloat \<Rightarrow> pyfloat \<Rightarrow> pyfloat" where
  "float_mul (Fin a) (Fin b) = float_of_product (a * b)"
| "float_mul (Fin a) PosInf = (if a < 0 then NegInf else PosInf)"
| "float_mul (Fin a) NegInf = (if a < 0 then PosInf else NegInf)"
| "float_mul PosInf (Fin b) = (if b < 0 then NegInf else PosInf)"
| "float_mul NegInf (Fin b) = (if b < 0 then PosInf else NegInf)"
| "float_mul PosInf PosInf = PosInf"
| "float_mul NegInf NegInf = PosInf"
| "float_mul PosInf NegInf = NegInf"
| "float_mul NegInf PosInf = NegInf"

definition z_scale :: pyfloat where
  "z_scale = Fin 100"

text \<open>\<^verbatim>\<open>info.get(key)\<close>: \<^verbatim>\<open>None\<close> for a missing key and for a key holding \<^verbatim>\<open>None\<close>.\<close>

definition info_get :: "'a option option \<Rightarrow> 'a option" where
  "info_get v = (case v of None \<Rightarrow> None | Some x \<Rightarrow> x)"

text \<open>The body of the loop for one entry: \<open>z0\<close> is computed first, then \<open>height\<close>, and
  either \<^verbatim>\<open>float\<close> can raise.\<close>

definition bottom_top_entry :: "layer_info \<Rightarrow> py_error + (pyfloat \<times> pyfloat)" where
  "bottom_top_entry info =
     (case info_get (bottom_val info) of
        None \<Rightarrow> Inr (Fin 0, Fin 1)
      | Some b \<Rightarrow>
          (case info_get (top_val info) of
             None \<Rightarrow> Inr (Fin 0, Fin 1)
           | Some t \<Rightarrow>
               (case py_float b of
                  Inl e \<Rightarrow> Inl e
                | Inr fb \<Rightarrow>
                    (case py_float (t - b) of
                       Inl e \<Rightarrow> Inl e
                     | Inr fd \<Rightarrow>
                         (let z0 = float_mul fb z_scale;
                              height = float_mul fd z_scale
                          in Inr (z0, if height = Fin 0 then Fin 1 else height))))))"

text \<open>The loop over \<^verbatim>\<open>lr.layers.items()\<close> at module level: an exception ends it, and
  the program with it.\<close>

fun bottom_top_items ::
  "(string \<times> layer_info) list \<Rightarrow> (string \<times> pyfloat \<times> pyfloat) list \<Rightarrow>
   py_error + (string \<times> pyfloat \<times> pyfloat) list" where
  "bottom_top_items [] bottom_top = Inr bottom_top"
| "bottom_top_items ((key, info) # items) bottom_top =
     (case bottom_top_entry info of
        Inl e \<Rightarrow> Inl e
      | Inr v \<Rightarrow> bottom_top_items items (dict_set key v bottom_top))"

definition bottom_top :: "reader \<Rightarrow> py_error + (string \<times> pyfloat \<times> pyfloat) list" where
  "bottom_top lr = bottom_top_items (layers lr) []"

text \<open>An integer that a float holds exactly, as every value of \<^verbatim>\<open>int(float(s))\<close> is.\<close>

definition is_float_int :: "int \<Rightarrow> bool" where
  "is_float_int v = (round53 v = v \<and> \<bar>v\<bar> < 2 ^ 1024)"

section \<open>What a row means\<close>

text \<open>The values the loaders read from a row, named so that theorems can speak of them.\<close>

definition def_layer_key :: "csv_row \<Rightarrow> string" where
  "def_layer_key row = strip (or_else (row ''layer'') (or_else (row ''ascell'') []))"

definition def_name :: "csv_row \<Rightarrow> string" where
  "def_name row = strip (or_else (row ''name'') [])"

definition def_purpose :: "csv_row \<Rightarrow> string" where
  "def_purpose row = strip (or_else (row ''purpose'') [])"

definition def_description :: "csv_row \<Rightarrow> string" where
  "def_description row = strip (or_else (row ''description'') [])"

text \<open>A definition row resolves when it passes both guards of \<^verbatim>\<open>_load_layer_def\<close>.\<close>

definition def_resolves :: "((string \<times> string) \<times> (int \<times> int)) list \<Rightarrow> csv_row \<Rightarrow> bool" where
  "def_resolves m row =
     (def_layer_key row \<noteq> [] \<and> def_name row \<noteq> [] \<and> def_purpose row \<noteq> [] \<and>
      map_of m (def_name row, def_purpose row) \<noteq> None)"

definition def_entry :: "csv_row \<Rightarrow> int \<times> int \<Rightarrow> layer_info" where
  "def_entry row nums =
     \<lparr>name = def_name row, purpose = def_purpose row,
      name_gdsii_num = Some (fst nums), purpose_gdsii_num = Some (snd nums),
      description = def_description row,
      color = None, bottom_val = None, top_val = None\<rparr>"

text \<open>The effect of one definition row on \<^verbatim>\<open>self.layers\<close>.\<close>

definition def_step ::
  "((string \<times> string) \<times> (int \<times> int)) list \<Rightarrow> csv_row \<Rightarrow>
   (string \<times> layer_info) list \<Rightarrow> (string \<times> layer_info) list" where
  "def_step m row ls =
     (if def_layer_key row = [] \<or> def_name row = [] \<or> def_purpose row = [] then ls
      else case map_of m (def_name row, def_purpose row) of
             None \<Rightarrow> ls
           | Some nums \<Rightarrow> dict_set (def_layer_key row) (def_entry row nums) ls)"

definition color_layer_key :: "csv_row \<Rightarrow> string" where
  "color_layer_key row = strip (or_else (row ''layer'') [])"

definition color_text :: "csv_row \<Rightarrow> string" where
  "color_text row = strip (or_else (row ''color'') [])"

text \<open>A cell that is missing or holds white space only.\<close>

definition blank_cell :: "string option \<Rightarrow> bool" where
  "blank_cell v = (case v of None \<Rightarrow> True | Some s \<Rightarrow> list_all is_space s)"

text \<open>The three assignments of a colour row to an entry.\<close>

definition merge_color :: "(string \<Rightarrow> int option) \<Rightarrow> csv_row \<Rightarrow> layer_info \<Rightarrow> layer_info" where
  "merge_color to_int row e =
     e\<lparr>color := Some (color_text row),
       bottom_val := Some (coerce to_int (row ''bottom'')),
       top_val := Some (coerce to_int (row ''top''))\<rparr>"

text \<open>The effect of one colour row on \<^verbatim>\<open>self.layers\<close>.\<close>

definition color_step ::
  "(string \<Rightarrow> int option) \<Rightarrow> csv_row \<Rightarrow> (string \<times> layer_info) list \<Rightarrow>
   (string \<times> layer_info) list" where
  "color_step to_int row ls =
     (if color_layer_key row = [] then ls
      else dict_set (color_layer_key row)
             (merge_color to_int row
                (case map_of ls (color_layer_key row) of None \<Rightarrow> minimal_entry | Some e \<Rightarrow> e))
             ls)"

text \<open>Two entries that agree on the five fields a definition row sets.\<close>

definition same_definition :: "layer_info \<Rightarrow> layer_info \<Rightarrow> bool" where
  "same_definition e e' =
     (name e' = name e \<and> purpose e' = purpose e \<and>
      name_gdsii_num e' = name_gdsii_num e \<and> purpose_gdsii_num e' = purpose_gdsii_num e \<and>
      description e' = description e)"

text \<open>An entry whose two GDSII numbers are both present or both absent.\<close>

definition paired :: "layer_info \<Rightarrow> bool" where
  "paired e = ((name_gdsii_num e = None) = (purpose_gdsii_num e = None))"

text \<open>An entry that holds the three keys a colour row assigns.\<close>

definition has_color_keys :: "layer_info \<Rightarrow> bool" where
  "has_color_keys e = (color e \<noteq> None \<and> bottom_val e \<noteq> None \<and> top_val e \<noteq> None)"

text \<open>The decimal numeral of \<open>n\<close> without padding: a minus sign for a negative number,
  then digits of value \<open>\<bar>n\<bar>\<close>, the first of them \<open>0\<close> only when it is the only one.\<close>

definition plain_decimal :: "int \<Rightarrow> string \<Rightarrow> bool" where
  "plain_decimal n s =
     (let ds = (if n < 0 then tl s else s) in
      (n < 0) = (s \<noteq> [] \<and> hd s = CHR ''-'') \<and>
      ds \<noteq> [] \<and> list_all is_digit ds \<and>
      (length ds = 1 \<or> hd ds \<noteq> CHR ''0'') \<and>
      int (foldl (\<lambda>a c. 10 * a + digit_val c) 0 ds) = \<bar>n\<bar>)"

definition rows_of :: "csv_row list option \<Rightarrow> csv_row list" where
  "rows_of file = (case file of None \<Rightarrow> [] | Some rows \<Rightarrow> rows)"

text \<open>The effect of the mapping lines on \<^verbatim>\<open>self.layer_mapping\<close>, with the exception that
  ended the loop.\<close>

fun mapping_table ::
  "string list \<Rightarrow> ((string \<times> string) \<times> (int \<times> int)) list \<Rightarrow>
   py_error option \<times> ((string \<times> string) \<times> (int \<times> int)) list" where
  "mapping_table [] m = (None, m)"
| "mapping_table (l # ls) m =
     (let line = strip l in
      if line = [] \<or> startswith_hash line then mapping_table ls m
      else
        let parts = split line in
        if length parts \<ge> 4 then
          (case py_int (parts ! 2) of
             None \<Rightarrow> (Some ValueError, m)
           | Some layer_number \<Rightarrow>
               (case py_int (parts ! 3) of
                  None \<Rightarrow> (Some ValueError, m)
                | Some dtype \<Rightarrow>
                    mapping_table ls (dict_set (parts ! 0, parts ! 1) (layer_number, dtype) m)))
        else mapping_table ls m)"

text \<open>A line that is neither blank nor a comment and has fewer than four fields.\<close>

definition short_line :: "string \<Rightarrow> bool" where
  "short_line l = (strip l \<noteq> [] \<and> \<not> startswith_hash (strip l) \<and> length (split (strip l)) < 4)"

text \<open>A line that is neither blank nor a comment and is not
  \<^verbatim>\<open>name purpose layer datatype\<close> with two integers.\<close>

definition malformed_line :: "string \<Rightarrow> bool" where
  "malformed_line l =
     (strip l \<noteq> [] \<and> \<not> startswith_hash (strip l) \<and>
      (length (split (strip l)) < 4 \<or> py_int (split (strip l) ! 2) = None \<or>
       py_int (split (strip l) ! 3) = None))"

section \<open>Inputs for the examples\<close>

text \<open>
  \<^verbatim>\<open>int(float(s))\<close> on a plain decimal literal: a sign, digits, and a fraction of digits
  after a point; the value is truncated toward zero. Exponents, underscores,
  \<^verbatim>\<open>inf\<close> and \<^verbatim>\<open>nan\<close> are outside this definition, which stands for \<open>to_int\<close> in the
  examples only.
\<close>

definition digits_value :: "string \<Rightarrow> nat" where
  "digits_value ds = foldl (\<lambda>a c. 10 * a + digit_val c) 0 ds"

definition unsigned_decimal :: "string \<Rightarrow> nat option" where
  "unsigned_decimal u =
     (let ip = takeWhile is_digit u; rest = dropWhile is_digit u in
      case rest of
        [] \<Rightarrow> if ip = [] then None else Some (digits_value ip)
      | c # fr \<Rightarrow>
          if c = CHR ''.'' \<and> list_all is_digit fr \<and> (ip \<noteq> [] \<or> fr \<noteq> [])
          then Some (digits_value ip) else None)"

definition trunc_decimal :: "string \<Rightarrow> int option" where
  "trunc_decimal s =
     (case strip s of
        [] \<Rightarrow> None
      | c # cs \<Rightarrow>
          if c = CHR ''-'' then map_option (\<lambda>n. - int n) (unsigned_decimal cs)
          else if c = CHR ''+'' then map_option int (unsigned_decimal cs)
          else map_option int (unsigned_decimal (c # cs)))"

definition example_mapping :: "string list" where
  "example_mapping =
     [''# name purpose layer datatype'', ''M1 drawing 10 0'', ''foo bar'', '''',
      ''VIA1 drawing 20 0'']"

definition example_defs :: "csv_row list" where
  "example_defs =
     [[''layer'' \<mapsto> ''metal1'', ''name'' \<mapsto> ''M1'', ''purpose'' \<mapsto> ''drawing'',
       ''description'' \<mapsto> ''first metal''],
      [''layer'' \<mapsto> ''poly'', ''name'' \<mapsto> ''PO'', ''purpose'' \<mapsto> ''drawing'']]"

definition example_colors :: "csv_row list" where
  "example_colors =
     [[''layer'' \<mapsto> ''metal1'', ''color'' \<mapsto> ''blue'', ''bottom'' \<mapsto> ''1.5'',
       ''top'' \<mapsto> ''1.5''],
      [''layer'' \<mapsto> ''via1'', ''color'' \<mapsto> ''red'', ''bottom'' \<mapsto> ''2'',
       ''top'' \<mapsto> ''x'']]"

definition example_reader :: reader where
  "example_reader =
     LayerReader trunc_decimal (Some example_defs) (Some example_colors) (Some example_mapping)"

definition example_defs_loaded :: reader where
  "example_defs_loaded =
     load_layer_def (Some example_defs) (load_layer_mapping (Some example_mapping) new_reader)"

text \<open>Three colour rows: one whose layer cell is blank, one without a layer cell, and
  one with a layer key that no definition row has, a \<^verbatim>\<open>bottom\<close> cell that is not a
  number and no \<^verbatim>\<open>top\<close> cell.\<close>

definition example_no_layer_row :: csv_row where
  "example_no_layer_row = [''color'' \<mapsto> ''red'', ''bottom'' \<mapsto> ''0'', ''top'' \<mapsto> ''1'']"

definition example_blank_key_row :: csv_row where
  "example_blank_key_row =
     [''layer'' \<mapsto> '' '', ''color'' \<mapsto> ''red'', ''bottom'' \<mapsto> ''0'', ''top'' \<mapsto> ''1'']"

definition example_no_extent_row :: csv_row where
  "example_no_extent_row =
     [''layer'' \<mapsto> ''pad'', ''color'' \<mapsto> ''gold'', ''bottom'' \<mapsto> ''abc'']"

text \<open>Two definition rows with the same layer key; only the first has a mapping entry.\<close>

definition example_duplicate_defs :: "csv_row list" where
  "example_duplicate_defs =
     [[''layer'' \<mapsto> ''metal1'', ''name'' \<mapsto> ''M1'', ''purpose'' \<mapsto> ''drawing''],
      [''layer'' \<mapsto> ''metal1'', ''name'' \<mapsto> ''M9'', ''purpose'' \<mapsto> ''drawing'']]"

section \<open>Dictionaries: lookup, keys, order\<close>

lemma map_of_dict_set: "map_of (dict_set k v d) = (map_of d)(k \<mapsto> v)"
  by (induction d) (auto simp: fun_eq_iff)

lemma set_dict_set: "set (dict_set k v d) \<subseteq> insert (k, v) (set d)"
  by (induction d) (auto split: if_splits)

lemma keys_dict_set: "fst ` set (dict_set k v d) = insert k (fst ` set d)"
proof (induction d)
  case Nil
  show ?case by simp
next
  case (Cons p d)
  then show ?case by (cases p) (simp add: insert_commute)
qed

lemma dict_set_new: "map_of d k = None \<Longrightarrow> dict_set k v d = d @ [(k, v)]"
  by (induction d) (auto split: if_splits)

lemma map_fst_dict_set_old: "map_of d k = Some v' \<Longrightarrow> map fst (dict_set k v d) = map fst d"
  by (induction d) (auto split: if_splits)

lemma distinct_dict_set: "distinct (map fst d) \<Longrightarrow> distinct (map fst (dict_set k v d))"
proof (induction d)
  case Nil
  show ?case by simp
next
  case (Cons p d)
  obtain k' v' where p: "p = (k', v')" by (cases p)
  show ?case
  proof (cases "k = k'")
    case True
    with Cons.prems p show ?thesis by simp
  next
    case False
    have "k' \<notin> fst ` set (dict_set k v d)"
      using Cons.prems p False by (simp add: keys_dict_set)
    with Cons p False show ?thesis by simp
  qed
qed

lemma map_of_None_iff_keys: "map_of d k = None \<longleftrightarrow> k \<notin> fst ` set d"
  by (simp add: map_of_eq_None_iff)

section \<open>The loaders as functions of the tables\<close>

lemma def_row_layers: "layers (def_row row st) = def_step (layer_mapping st) row (layers st)"
  by (simp add: def_row_def def_step_def def_layer_key_def def_name_def def_purpose_def
      def_description_def def_entry_def Let_def split: option.splits)

lemma def_row_layer_mapping: "layer_mapping (def_row row st) = layer_mapping st"
  by (simp add: def_row_def Let_def split: option.splits)

lemma fold_def_row_layer_mapping: "layer_mapping (fold def_row rows st) = layer_mapping st"
  by (induction rows arbitrary: st) (simp_all add: def_row_layer_mapping)

lemma fold_def_row_layers:
  "layers (fold def_row rows st) = fold (def_step (layer_mapping st)) rows (layers st)"
  by (induction rows arbitrary: st) (simp_all add: def_row_layers def_row_layer_mapping)

lemma color_row_layers: "layers (color_row f row st) = color_step f row (layers st)"
  by (simp add: color_row_def color_step_def color_layer_key_def color_text_def merge_color_def
      Let_def)

lemma color_row_rest:
  "layer_mapping (color_row f row st) = layer_mapping st \<and> printed (color_row f row st) = printed st"
  by (simp add: color_row_def Let_def)

lemma fold_color_row_layers:
  "layers (fold (color_row f) rows st) = fold (color_step f) rows (layers st)"
  by (induction rows arbitrary: st) (simp_all add: color_row_layers)

lemma fold_color_row_rest:
  "layer_mapping (fold (color_row f) rows st) = layer_mapping st \<and>
   printed (fold (color_row f) rows st) = printed st"
  by (induction rows arbitrary: st) (simp_all add: color_row_rest)

lemma mapping_lines_table:
  "fst (mapping_lines n ls st) = fst (mapping_table ls (layer_mapping st)) \<and>
   layer_mapping (snd (mapping_lines n ls st)) = snd (mapping_table ls (layer_mapping st)) \<and>
   layers (snd (mapping_lines n ls st)) = layers st"
  by (induction n ls st rule: mapping_lines.induct) (simp_all add: Let_def split: option.splits)

lemma load_layer_mapping_table:
  "layer_mapping (load_layer_mapping src st) =
     (case src of None \<Rightarrow> [] | Some ls \<Rightarrow> snd (mapping_table ls []))"
proof (cases src)
  case None
  then show ?thesis by (simp add: load_layer_mapping_def)
next
  case (Some ls)
  obtain e st' where r: "mapping_lines 1 ls (st\<lparr>layer_mapping := []\<rparr>) = (e, st')"
    by (cases "mapping_lines 1 ls (st\<lparr>layer_mapping := []\<rparr>)")
  have "layer_mapping st' = snd (mapping_table ls [])"
    using mapping_lines_table [of 1 ls "st\<lparr>layer_mapping := []\<rparr>"] r by simp
  with Some r show ?thesis by (simp add: load_layer_mapping_def split: option.splits)
qed

lemma load_layer_mapping_layers: "layers (load_layer_mapping src st) = layers st"
proof (cases src)
  case None
  then show ?thesis by (simp add: load_layer_mapping_def)
next
  case (Some ls)
  obtain e st' where r: "mapping_lines 1 ls (st\<lparr>layer_mapping := []\<rparr>) = (e, st')"
    by (cases "mapping_lines 1 ls (st\<lparr>layer_mapping := []\<rparr>)")
  have "layers st' = layers st"
    using mapping_lines_table [of 1 ls "st\<lparr>layer_mapping := []\<rparr>"] r by simp
  with Some r show ?thesis by (simp add: load_layer_mapping_def split: option.splits)
qed

lemma load_layer_def_layers:
  "layers (load_layer_def src st) = fold (def_step (layer_mapping st)) (rows_of src) (layers st)"
  by (cases src) (simp_all add: load_layer_def_def rows_of_def fold_def_row_layers)

lemma load_layer_color_layers:
  "layers (load_layer_color f src st) = fold (color_step f) (rows_of src) (layers st)"
  by (cases src) (simp_all add: load_layer_color_def rows_of_def fold_color_row_layers)

text \<open>The table of a constructed reader: the colour rows applied to the definition rows
  applied to the empty table, under the mapping the mapping file gave.\<close>

lemma LayerReader_layers:
  "layers (LayerReader f dfile cfile mfile) =
     fold (color_step f) (rows_of cfile)
       (fold (def_step (layer_mapping (load_layer_mapping mfile new_reader))) (rows_of dfile) [])"
proof -
  have m: "layers (load_layer_mapping mfile new_reader) = []"
    by (simp add: load_layer_mapping_layers new_reader_def)
  have d: "layer_mapping (load_layer_def dfile st) = layer_mapping st" for st
    by (cases dfile) (simp_all add: load_layer_def_def fold_def_row_layer_mapping)
  show ?thesis
    by (simp add: LayerReader_def load_layer_color_layers load_layer_def_layers m)
qed

section \<open>One record per layer key\<close>

lemma distinct_def_step: "distinct (map fst ls) \<Longrightarrow> distinct (map fst (def_step m row ls))"
  by (simp add: def_step_def distinct_dict_set split: option.splits)

lemma distinct_color_step: "distinct (map fst ls) \<Longrightarrow> distinct (map fst (color_step f row ls))"
  by (simp add: color_step_def distinct_dict_set)

lemma distinct_fold_def_step:
  "distinct (map fst ls) \<Longrightarrow> distinct (map fst (fold (def_step m) rows ls))"
  by (induction rows arbitrary: ls) (simp_all add: distinct_def_step)

lemma distinct_fold_color_step:
  "distinct (map fst ls) \<Longrightarrow> distinct (map fst (fold (color_step f) rows ls))"
  by (induction rows arbitrary: ls) (simp_all add: distinct_color_step)

text \<open>
  C6. Whatever the three files hold, no layer key occurs twice in the table of the
  constructed reader: \<^verbatim>\<open>self.layers\<close> has at most one record per key.
\<close>

theorem layer_key_unique:
  "distinct (map fst (layers (LayerReader to_int layer_def_file layer_color_file layer_mapping_file)))"
  by (simp add: LayerReader_layers distinct_fold_color_step distinct_fold_def_step)


section \<open>The examples, evaluated\<close>

lemma example_reader_value:
  "example_reader =
     \<lparr>layer_mapping = [((''M1'', ''drawing''), (10, 0)), ((''VIA1'', ''drawing''), (20, 0))],
      layers =
        [(''metal1'',
          \<lparr>name = ''M1'', purpose = ''drawing'', name_gdsii_num = Some 10,
           purpose_gdsii_num = Some 0, description = ''first metal'', color = Some ''blue'',
           bottom_val = Some (Some 1), top_val = Some (Some 1)\<rparr>),
         (''via1'',
          \<lparr>name = [], purpose = [], name_gdsii_num = None, purpose_gdsii_num = None,
           description = [], color = Some ''red'', bottom_val = Some (Some 2),
           top_val = Some None\<rparr>)],
      printed = [InvalidLine 3 ''foo bar'', NoMapping ''PO'' ''drawing'']\<rparr>"
  by code_simp

lemma example_defs_loaded_value:
  "example_defs_loaded =
     \<lparr>layer_mapping = [((''M1'', ''drawing''), (10, 0)), ((''VIA1'', ''drawing''), (20, 0))],
      layers =
        [(''metal1'',
          \<lparr>name = ''M1'', purpose = ''drawing'', name_gdsii_num = Some 10,
           purpose_gdsii_num = Some 0, description = ''first metal'', color = None,
           bottom_val = None, top_val = None\<rparr>)],
      printed = [InvalidLine 3 ''foo bar'', NoMapping ''PO'' ''drawing'']\<rparr>"
  by code_simp

section \<open>The two GDSII numbers come together\<close>

lemma paired_dict_set:
  "paired v \<Longrightarrow> \<forall>p \<in> set d. paired (snd p) \<Longrightarrow>
   \<forall>p \<in> set (dict_set k v d). paired (snd p)"
  using set_dict_set [of k v d] by auto

lemma paired_def_entry: "paired (def_entry row nums)"
  by (simp add: paired_def def_entry_def)

lemma paired_def_step:
  assumes "\<forall>p \<in> set ls. paired (snd p)"
  shows "\<forall>p \<in> set (def_step m row ls). paired (snd p)"
proof (cases "def_step m row ls = ls")
  case True
  with assms show ?thesis by simp
next
  case False
  then obtain nums where
    eq: "def_step m row ls = dict_set (def_layer_key row) (def_entry row nums) ls"
    by (auto simp: def_step_def split: if_splits option.splits)
  have "\<forall>p \<in> set (dict_set (def_layer_key row) (def_entry row nums) ls). paired (snd p)"
    using paired_def_entry assms by (rule paired_dict_set)
  with eq show ?thesis by simp
qed

lemma paired_color_step:
  assumes "\<forall>p \<in> set ls. paired (snd p)"
  shows "\<forall>p \<in> set (color_step f row ls). paired (snd p)"
proof (cases "color_layer_key row = []")
  case True
  with assms show ?thesis by (simp add: color_step_def)
next
  case False
  let ?e = "case map_of ls (color_layer_key row) of None \<Rightarrow> minimal_entry | Some e \<Rightarrow> e"
  have "paired ?e"
  proof (cases "map_of ls (color_layer_key row)")
    case None
    then show ?thesis by (simp add: paired_def minimal_entry_def)
  next
    case (Some e)
    then have "(color_layer_key row, e) \<in> set ls" by (rule map_of_SomeD)
    with assms Some show ?thesis by auto
  qed
  then have "paired (merge_color f row ?e)" by (simp add: paired_def merge_color_def)
  then have "\<forall>p \<in> set (dict_set (color_layer_key row) (merge_color f row ?e) ls).
      paired (snd p)"
    using assms by (rule paired_dict_set)
  with False show ?thesis by (simp add: color_step_def)
qed

lemma paired_fold_def_step:
  "\<forall>p \<in> set ls. paired (snd p) \<Longrightarrow> \<forall>p \<in> set (fold (def_step m) rows ls). paired (snd p)"
proof (induction rows arbitrary: ls)
  case Nil
  then show ?case by simp
next
  case (Cons r rows)
  from Cons.prems have "\<forall>p \<in> set (def_step m r ls). paired (snd p)"
    by (rule paired_def_step)
  then have "\<forall>p \<in> set (fold (def_step m) rows (def_step m r ls)). paired (snd p)"
    by (rule Cons.IH)
  then show ?case by simp
qed

lemma paired_fold_color_step:
  "\<forall>p \<in> set ls. paired (snd p) \<Longrightarrow> \<forall>p \<in> set (fold (color_step f) rows ls). paired (snd p)"
proof (induction rows arbitrary: ls)
  case Nil
  then show ?case by simp
next
  case (Cons r rows)
  from Cons.prems have "\<forall>p \<in> set (color_step f r ls). paired (snd p)"
    by (rule paired_color_step)
  then have "\<forall>p \<in> set (fold (color_step f) rows (color_step f r ls)). paired (snd p)"
    by (rule Cons.IH)
  then show ?case by simp
qed

text \<open>
  C5. In every record of the table of a constructed reader the two GDSII numbers
  \<^verbatim>\<open>name_gdsii_num\<close> and \<^verbatim>\<open>purpose_gdsii_num\<close> are both present or both absent.
\<close>

theorem gdsii_numbers_paired:
  "(k, e) \<in> set (layers (LayerReader to_int layer_def_file layer_color_file layer_mapping_file))
   \<Longrightarrow> (name_gdsii_num e = None) = (purpose_gdsii_num e = None)"
proof -
  assume mem: "(k, e) \<in> set (layers (LayerReader to_int layer_def_file layer_color_file
    layer_mapping_file))"
  have "\<forall>p \<in> set (layers (LayerReader to_int layer_def_file layer_color_file layer_mapping_file)).
          paired (snd p)"
    unfolding LayerReader_layers
    by (rule paired_fold_color_step, rule paired_fold_def_step) simp
  with mem have "paired e" by auto
  then show ?thesis by (simp add: paired_def)
qed

theorem gdsii_numbers_paired_witness:
  "(''via1'',
    \<lparr>name = [], purpose = [], name_gdsii_num = None, purpose_gdsii_num = None,
     description = [], color = Some ''red'', bottom_val = Some (Some 2),
     top_val = Some None\<rparr>) \<in> set (layers example_reader) \<and>
   (''metal1'',
    \<lparr>name = ''M1'', purpose = ''drawing'', name_gdsii_num = Some 10,
     purpose_gdsii_num = Some 0, description = ''first metal'', color = Some ''blue'',
     bottom_val = Some (Some 1), top_val = Some (Some 1)\<rparr>) \<in> set (layers example_reader) \<and>
   (name_gdsii_num (snd (layers example_reader ! 1)) = None) =
   (purpose_gdsii_num (snd (layers example_reader ! 1)) = None)"
proof -
  have m: "layers example_reader ! 1 \<in> set (layers example_reader)"
    by (simp add: example_reader_value)
  have "(fst (layers example_reader ! 1), snd (layers example_reader ! 1))
          \<in> set (layers (LayerReader trunc_decimal (Some example_defs) (Some example_colors)
                (Some example_mapping)))"
    using m by (simp add: example_reader_def)
  from gdsii_numbers_paired [OF this] show ?thesis
    by (simp add: example_reader_value)
qed


section \<open>Formatting an integer and reading it back\<close>

lemma is_digit_digit_char: "k < 10 \<Longrightarrow> is_digit (digit_char k)"
  by (simp add: is_digit_def digit_char_def)

lemma digit_val_digit_char: "k < 10 \<Longrightarrow> digit_val (digit_char k) = k"
  by (simp add: digit_val_def digit_char_def)

lemma digit_char_0: "digit_char 0 = CHR ''0''"
  by code_simp

lemma digit_char_zero: "k < 10 \<Longrightarrow> digit_char k = CHR ''0'' \<Longrightarrow> k = 0"
proof -
  assume k: "k < 10" and "digit_char k = CHR ''0''"
  then have "digit_val (digit_char k) = digit_val (digit_char 0)" by (simp add: digit_char_0)
  with k show "k = 0" by (simp add: digit_val_digit_char)
qed

lemma digits_of_small: "n < 10 \<Longrightarrow> digits_of n = [digit_char n]"
  by (subst digits_of.simps) simp

lemma digits_of_big:
  "\<not> n < 10 \<Longrightarrow> digits_of n = digits_of (n div 10) @ [digit_char (n mod 10)]"
  by (subst digits_of.simps) simp

lemma is_digit_not_space: "is_digit c \<Longrightarrow> \<not> is_space c"
  by (auto simp: is_digit_def is_space_def)

lemma is_digit_not_sign: "is_digit c \<Longrightarrow> c \<noteq> CHR ''-'' \<and> c \<noteq> CHR ''+''"
  by (auto simp: is_digit_def)

lemma digits_of_nonempty: "digits_of n \<noteq> []"
  by (cases "n < 10") (simp_all add: digits_of_small digits_of_big)

lemma digits_of_all_digits: "list_all is_digit (digits_of n)"
proof (induction n rule: digits_of.induct)
  case (1 n)
  show ?case
  proof (cases "n < 10")
    case True
    then show ?thesis by (simp add: digits_of_small is_digit_digit_char)
  next
    case False
    with 1 have "list_all is_digit (digits_of (n div 10))" by simp
    with False show ?thesis by (simp add: digits_of_big is_digit_digit_char)
  qed
qed

lemma digits_of_value: "foldl (\<lambda>a c. 10 * a + digit_val c) 0 (digits_of n) = n"
proof (induction n rule: digits_of.induct)
  case (1 n)
  show ?case
  proof (cases "n < 10")
    case True
    then show ?thesis by (simp add: digits_of_small digit_val_digit_char)
  next
    case False
    with 1 have "foldl (\<lambda>a c. 10 * a + digit_val c) 0 (digits_of (n div 10)) = n div 10"
      by simp
    with False show ?thesis by (simp add: digits_of_big digit_val_digit_char)
  qed
qed

lemma digits_of_no_leading_zero: "length (digits_of n) = 1 \<or> hd (digits_of n) \<noteq> CHR ''0''"
proof (cases "n < 10")
  case True
  then show ?thesis by (simp add: digits_of_small)
next
  case False
  have "hd (digits_of m) \<noteq> CHR ''0''" if "m \<noteq> 0" for m
    using that
  proof (induction m rule: digits_of.induct)
    case (1 m)
    show ?case
    proof (cases "m < 10")
      case True
      have "digit_char m \<noteq> CHR ''0''"
      proof
        assume "digit_char m = CHR ''0''"
        with True have "m = 0" by (rule digit_char_zero)
        with 1 show False by simp
      qed
      with True show ?thesis by (simp add: digits_of_small)
    next
      case False
      then have "m div 10 \<noteq> 0" by simp
      with 1 False have ih: "hd (digits_of (m div 10)) \<noteq> CHR ''0''" by simp
      have "hd (digits_of m) = hd (digits_of (m div 10))"
        unfolding digits_of_big [OF False] using digits_of_nonempty [of "m div 10"] by simp
      with ih show ?thesis by simp
    qed
  qed
  moreover from False have "n \<noteq> 0" by simp
  ultimately show ?thesis by simp
qed

lemma int_digits_all_digits:
  "list_all is_digit ds \<Longrightarrow>
   int_digits ds acc = Some (foldl (\<lambda>a c. 10 * a + digit_val c) acc ds)"
  by (induction ds acc rule: int_digits.induct) simp_all

lemma unsigned_all_digits:
  assumes "ds \<noteq> []" and "list_all is_digit ds"
  shows "unsigned ds = Some (foldl (\<lambda>a c. 10 * a + digit_val c) 0 ds)"
proof -
  from assms obtain d ds' where ds: "ds = d # ds'" by (cases ds) auto
  with assms show ?thesis by (simp add: unsigned_def int_digits_all_digits)
qed

lemma unsigned_digits_of: "unsigned (digits_of n) = Some n"
  by (simp add: unsigned_all_digits digits_of_nonempty digits_of_all_digits digits_of_value)

lemma strip_no_space:
  assumes "s \<noteq> []" and "\<not> is_space (hd s)" and "\<not> is_space (last s)"
  shows "strip s = s"
proof -
  from assms have a: "dropWhile is_space s = s" by (cases s) auto
  from assms have "rev s \<noteq> []" and "\<not> is_space (hd (rev s))" by (simp_all add: hd_rev)
  then have "dropWhile is_space (rev s) = rev s" by (cases "rev s") auto
  with a show ?thesis by (simp add: strip_def)
qed

lemma strip_digits_of: "strip (digits_of n) = digits_of n"
proof (rule strip_no_space)
  show ne: "digits_of n \<noteq> []" by (rule digits_of_nonempty)
  have all: "\<forall>c \<in> set (digits_of n). is_digit c"
    using digits_of_all_digits [of n] by (simp add: list_all_iff)
  from ne all show "\<not> is_space (hd (digits_of n))" by (simp add: is_digit_not_space)
  from ne all show "\<not> is_space (last (digits_of n))" by (simp add: is_digit_not_space)
qed

lemma strip_minus_digits_of: "strip (CHR ''-'' # digits_of n) = CHR ''-'' # digits_of n"
proof (rule strip_no_space)
  show "CHR ''-'' # digits_of n \<noteq> []" by simp
  show "\<not> is_space (hd (CHR ''-'' # digits_of n))" by (simp add: is_space_def)
  have all: "\<forall>c \<in> set (digits_of n). is_digit c"
    using digits_of_all_digits [of n] by (simp add: list_all_iff)
  with digits_of_nonempty [of n] show "\<not> is_space (last (CHR ''-'' # digits_of n))"
    by (simp add: is_digit_not_space)
qed

lemma py_int_fmt_d: "py_int (fmt_d n) = Some n"
proof (cases "n < 0")
  case True
  then show ?thesis
    by (simp add: py_int_def fmt_d_def strip_minus_digits_of unsigned_digits_of)
next
  case False
  obtain d ds where ds: "digits_of (nat n) = d # ds"
    using digits_of_nonempty [of "nat n"] by (cases "digits_of (nat n)") auto
  have "is_digit d" using digits_of_all_digits [of "nat n"] ds by simp
  then have sign: "d \<noteq> CHR ''-''" "d \<noteq> CHR ''+''" by (simp_all add: is_digit_not_sign)
  have "unsigned (d # ds) = Some (nat n)" using unsigned_digits_of [of "nat n"] ds by simp
  with False sign ds strip_digits_of [of "nat n"] show ?thesis
    by (simp add: py_int_def fmt_d_def)
qed

lemma plain_decimal_fmt_d: "plain_decimal n (fmt_d n)"
proof (cases "n < 0")
  case True
  then show ?thesis
    using digits_of_no_leading_zero [of "nat (- n)"]
    by (simp add: plain_decimal_def fmt_d_def digits_of_nonempty digits_of_all_digits
        digits_of_value)
next
  case False
  obtain d ds where ds: "digits_of (nat n) = d # ds"
    using digits_of_nonempty [of "nat n"] by (cases "digits_of (nat n)") auto
  have "is_digit d" using digits_of_all_digits [of "nat n"] ds by simp
  then have "hd (digits_of (nat n)) \<noteq> CHR ''-''" by (simp add: ds is_digit_not_sign)
  with False show ?thesis
    using digits_of_no_leading_zero [of "nat n"]
    by (simp add: plain_decimal_def fmt_d_def digits_of_nonempty digits_of_all_digits
        digits_of_value)
qed


section \<open>The address string\<close>

lemma fmt_pair_Some: "fmt_pair (Some x) (Some y) = Inr (fmt_d x @ ''/'' @ fmt_d y)"
  by (simp add: fmt_pair_def)

lemma fmt_pair_None: "a = None \<or> b = None \<Longrightarrow> fmt_pair a b = Inl TypeError"
  by (auto simp: fmt_pair_def split: option.splits)

lemma fmt_pair_cases: "fmt_pair a b = Inl TypeError \<or> (\<exists>s. fmt_pair a b = Inr s)"
  by (simp add: fmt_pair_def split: option.splits)

text \<open>
  C3. For a layer key whose record holds both GDSII numbers, \<open>L\<close> and \<open>D\<close>,
  \<^verbatim>\<open>get_klayoutlayer_index\<close> returns the text of \<open>L\<close>, a slash and the text of \<open>D\<close>.
  Each of the two texts is the plain decimal numeral of its number, without padding, and
  \<^verbatim>\<open>int\<close> reads it back as that number.
\<close>

theorem address_string_format:
  assumes "map_of (layers lr) layer_key = Some e"
    and "name_gdsii_num e = Some L"
    and "purpose_gdsii_num e = Some D"
  shows "get_klayoutlayer_index lr layer_key = Inr (fmt_d L @ ''/'' @ fmt_d D) \<and>
         plain_decimal L (fmt_d L) \<and> plain_decimal D (fmt_d D) \<and>
         py_int (fmt_d L) = Some L \<and> py_int (fmt_d D) = Some D"
  using assms
  by (simp add: get_klayoutlayer_index_def fmt_pair_Some plain_decimal_fmt_d py_int_fmt_d)

theorem address_string_format_witness:
  "map_of (layers example_reader) ''metal1'' =
     Some \<lparr>name = ''M1'', purpose = ''drawing'', name_gdsii_num = Some 10,
           purpose_gdsii_num = Some 0, description = ''first metal'', color = Some ''blue'',
           bottom_val = Some (Some 1), top_val = Some (Some 1)\<rparr> \<and>
   get_klayoutlayer_index example_reader ''metal1'' = Inr ''10/0''"
proof -
  let ?e = "\<lparr>name = ''M1'', purpose = ''drawing'', name_gdsii_num = Some 10,
           purpose_gdsii_num = Some 0, description = ''first metal'', color = Some ''blue'',
           bottom_val = Some (Some 1), top_val = Some (Some 1)\<rparr>"
  have m: "map_of (layers example_reader) ''metal1'' = Some ?e"
    by (simp add: example_reader_value)
  have ten: "fmt_d 10 = ''10''" by code_simp
  have zero: "fmt_d 0 = ''0''" by code_simp
  from address_string_format [OF m, of 10 0]
  have "get_klayoutlayer_index example_reader ''metal1'' = Inr (fmt_d 10 @ ''/'' @ fmt_d 0)"
    by simp
  with m show ?thesis by (simp add: ten zero)
qed

section \<open>Failures of the two address operations\<close>

lemma layer2index_items_fails:
  "(k, e) \<in> set items \<Longrightarrow> name_gdsii_num e = None \<or> purpose_gdsii_num e = None \<Longrightarrow>
   layer2index_items items acc = Inl TypeError"
proof (induction items arbitrary: acc)
  case Nil
  then show ?case by simp
next
  case (Cons p items)
  obtain k' v where p: "p = (k', v)" by (cases p)
  show ?case
  proof (cases "fmt_pair (name_gdsii_num v) (purpose_gdsii_num v)")
    case (Inl err)
    with fmt_pair_cases [of "name_gdsii_num v" "purpose_gdsii_num v"] have "err = TypeError"
      by auto
    with Inl p show ?thesis by simp
  next
    case (Inr s)
    have "(k, e) \<noteq> (k', v)"
    proof
      assume "(k, e) = (k', v)"
      with Cons.prems(2) have "fmt_pair (name_gdsii_num v) (purpose_gdsii_num v) = Inl TypeError"
        by (simp add: fmt_pair_None)
      with Inr show False by simp
    qed
    with Cons.prems(1) p have "(k, e) \<in> set items" by auto
    then have "layer2index_items items (dict_set k' s acc) = Inl TypeError"
      using Cons.prems(2) by (rule Cons.IH)
    with Inr p show ?thesis by simp
  qed
qed

text \<open>
  C8. \<^verbatim>\<open>get_klayoutlayer_index\<close> raises \<^verbatim>\<open>KeyError\<close> for a layer key that is not in the
  table, and raises \<^verbatim>\<open>TypeError\<close>, with no substitute value, for a key whose record lacks
  a GDSII number; \<^verbatim>\<open>gen_layer2index\<close> raises \<^verbatim>\<open>TypeError\<close> as soon as some record of the
  table lacks a GDSII number.
\<close>

theorem address_operations_fail:
  "(map_of (layers lr) layer_key = None \<longrightarrow> get_klayoutlayer_index lr layer_key = Inl KeyError) \<and>
   (\<forall>e. map_of (layers lr) layer_key = Some e \<and>
         (name_gdsii_num e = None \<or> purpose_gdsii_num e = None) \<longrightarrow>
         get_klayoutlayer_index lr layer_key = Inl TypeError) \<and>
   (\<forall>k e. (k, e) \<in> set (layers lr) \<and>
         (name_gdsii_num e = None \<or> purpose_gdsii_num e = None) \<longrightarrow>
         gen_layer2index lr = Inl TypeError)"
proof (intro conjI allI impI)
  assume "map_of (layers lr) layer_key = None"
  then show "get_klayoutlayer_index lr layer_key = Inl KeyError"
    by (simp add: get_klayoutlayer_index_def)
next
  fix e
  assume "map_of (layers lr) layer_key = Some e \<and>
          (name_gdsii_num e = None \<or> purpose_gdsii_num e = None)"
  then show "get_klayoutlayer_index lr layer_key = Inl TypeError"
    by (simp add: get_klayoutlayer_index_def fmt_pair_None)
next
  fix k e
  assume "(k, e) \<in> set (layers lr) \<and> (name_gdsii_num e = None \<or> purpose_gdsii_num e = None)"
  then show "gen_layer2index lr = Inl TypeError"
    unfolding gen_layer2index_def by (blast intro: layer2index_items_fails)
qed

theorem address_operations_fail_witness:
  "map_of (layers example_reader) ''nwell'' = None \<and>
   get_klayoutlayer_index example_reader ''nwell'' = Inl KeyError \<and>
   map_of (layers example_reader) ''via1'' =
     Some \<lparr>name = [], purpose = [], name_gdsii_num = None, purpose_gdsii_num = None,
           description = [], color = Some ''red'', bottom_val = Some (Some 2),
           top_val = Some None\<rparr> \<and>
   get_klayoutlayer_index example_reader ''via1'' = Inl TypeError \<and>
   gen_layer2index example_reader = Inl TypeError"
proof -
  let ?e = "\<lparr>name = [], purpose = [], name_gdsii_num = None, purpose_gdsii_num = None,
           description = [], color = Some ''red'', bottom_val = Some (Some 2),
           top_val = Some None\<rparr>"
  have absent: "map_of (layers example_reader) ''nwell'' = None"
    by (simp add: example_reader_value)
  have present: "map_of (layers example_reader) ''via1'' = Some ?e"
    by (simp add: example_reader_value)
  have member: "(''via1'', ?e) \<in> set (layers example_reader)"
    by (simp add: example_reader_value)
  have none: "name_gdsii_num ?e = None" by simp
  from address_operations_fail [of example_reader "''nwell''"] absent
  have a: "get_klayoutlayer_index example_reader ''nwell'' = Inl KeyError" by blast
  from address_operations_fail [of example_reader "''via1''"] present none
  have b: "get_klayoutlayer_index example_reader ''via1'' = Inl TypeError" by blast
  from address_operations_fail [of example_reader "''via1''"] member none
  have c: "gen_layer2index example_reader = Inl TypeError" by blast
  from absent a present b c show ?thesis by simp
qed


section \<open>What a colour row changes\<close>

lemma map_of_color_step:
  "map_of (color_step f row ls) k =
     (if color_layer_key row \<noteq> [] \<and> k = color_layer_key row
      then Some (merge_color f row
                   (case map_of ls k of None \<Rightarrow> minimal_entry | Some e \<Rightarrow> e))
      else map_of ls k)"
  by (simp add: color_step_def map_of_dict_set)

lemma same_definition_refl: "same_definition e e"
  by (simp add: same_definition_def)

lemma same_definition_trans:
  "same_definition e e' \<Longrightarrow> same_definition e' e'' \<Longrightarrow> same_definition e e''"
  by (simp add: same_definition_def)

lemma same_definition_merge_color: "same_definition e (merge_color f row e)"
  by (simp add: same_definition_def merge_color_def)

lemma has_color_keys_merge_color: "has_color_keys (merge_color f row e)"
  by (simp add: has_color_keys_def merge_color_def)

lemma color_step_frame:
  assumes "map_of ls k = Some e"
  shows "\<exists>e'. map_of (color_step f row ls) k = Some e' \<and> same_definition e e' \<and>
              (has_color_keys e \<longrightarrow> has_color_keys e')"
proof (cases "color_layer_key row \<noteq> [] \<and> k = color_layer_key row")
  case True
  with assms have "map_of (color_step f row ls) k = Some (merge_color f row e)"
    by (simp add: map_of_color_step)
  then show ?thesis
    by (simp add: same_definition_merge_color has_color_keys_merge_color)
next
  case False
  with assms have "map_of (color_step f row ls) k = Some e"
    by (auto simp: map_of_color_step)
  then show ?thesis by (simp add: same_definition_refl)
qed

lemma color_fold_frame:
  "map_of ls k = Some e \<Longrightarrow>
   \<exists>e'. map_of (fold (color_step f) rows ls) k = Some e' \<and> same_definition e e' \<and>
        (has_color_keys e \<longrightarrow> has_color_keys e')"
proof (induction rows arbitrary: ls e)
  case Nil
  then show ?case by (simp add: same_definition_refl)
next
  case (Cons row rows)
  from color_step_frame [OF Cons.prems, of f row] obtain e1 where
    e1: "map_of (color_step f row ls) k = Some e1" "same_definition e e1"
      "has_color_keys e \<longrightarrow> has_color_keys e1"
    by blast
  from Cons.IH [OF e1(1)] obtain e2 where
    e2: "map_of (fold (color_step f) rows (color_step f row ls)) k = Some e2"
      "same_definition e1 e2" "has_color_keys e1 \<longrightarrow> has_color_keys e2"
    by blast
  from e1 e2 have "same_definition e e2" by (blast intro: same_definition_trans)
  with e1 e2 show ?case by auto
qed

text \<open>
  C10. When the layer key of a colour row already has a record, merging the row keeps the
  record's \<^verbatim>\<open>name\<close>, \<^verbatim>\<open>purpose\<close>, \<^verbatim>\<open>name_gdsii_num\<close>, \<^verbatim>\<open>purpose_gdsii_num\<close> and
  \<^verbatim>\<open>description\<close>: the new record is the old one with \<^verbatim>\<open>color\<close>, \<^verbatim>\<open>bottom\<close> and
  \<^verbatim>\<open>top\<close> assigned. Every other record, the order of the keys, the mapping table and the
  printed lines stay as they were.
\<close>

theorem color_row_frame:
  assumes "map_of (layers lr) (color_layer_key row) = Some e"
  shows "\<exists>e'. map_of (layers (color_row to_int row lr)) (color_layer_key row) = Some e' \<and>
           name e' = name e \<and> purpose e' = purpose e \<and>
           name_gdsii_num e' = name_gdsii_num e \<and>
           purpose_gdsii_num e' = purpose_gdsii_num e \<and>
           description e' = description e \<and>
           e' = (if color_layer_key row = [] then e
                 else e\<lparr>color := Some (color_text row),
                        bottom_val := Some (coerce to_int (row ''bottom'')),
                        top_val := Some (coerce to_int (row ''top''))\<rparr>) \<and>
           (\<forall>k. k \<noteq> color_layer_key row \<longrightarrow>
                map_of (layers (color_row to_int row lr)) k = map_of (layers lr) k) \<and>
           map fst (layers (color_row to_int row lr)) = map fst (layers lr) \<and>
           layer_mapping (color_row to_int row lr) = layer_mapping lr \<and>
           printed (color_row to_int row lr) = printed lr"
proof (cases "color_layer_key row = []")
  case True
  then have "layers (color_row to_int row lr) = layers lr"
    by (simp add: color_row_layers color_step_def)
  with assms True show ?thesis by (simp add: color_row_rest)
next
  case False
  let ?e' = "merge_color to_int row e"
  have l: "layers (color_row to_int row lr) = dict_set (color_layer_key row) ?e' (layers lr)"
    using assms False by (simp add: color_row_layers color_step_def)
  have keys: "map fst (layers (color_row to_int row lr)) = map fst (layers lr)"
    unfolding l using assms by (rule map_fst_dict_set_old)
  have "map_of (layers (color_row to_int row lr)) (color_layer_key row) = Some ?e'"
    by (simp add: l map_of_dict_set)
  moreover have "\<forall>k. k \<noteq> color_layer_key row \<longrightarrow>
      map_of (layers (color_row to_int row lr)) k = map_of (layers lr) k"
    by (simp add: l map_of_dict_set)
  ultimately show ?thesis
    using False keys by (simp add: merge_color_def color_row_rest)
qed

theorem color_row_frame_witness:
  "map_of (layers example_defs_loaded) (color_layer_key (example_colors ! 0)) =
     Some \<lparr>name = ''M1'', purpose = ''drawing'', name_gdsii_num = Some 10,
           purpose_gdsii_num = Some 0, description = ''first metal'', color = None,
           bottom_val = None, top_val = None\<rparr> \<and>
   map_of (layers (color_row trunc_decimal (example_colors ! 0) example_defs_loaded))
       (color_layer_key (example_colors ! 0)) =
     Some \<lparr>name = ''M1'', purpose = ''drawing'', name_gdsii_num = Some 10,
           purpose_gdsii_num = Some 0, description = ''first metal'', color = Some ''blue'',
           bottom_val = Some (Some 1), top_val = Some (Some 1)\<rparr>"
proof -
  let ?row = "example_colors ! 0"
  let ?e = "\<lparr>name = ''M1'', purpose = ''drawing'', name_gdsii_num = Some 10,
           purpose_gdsii_num = Some 0, description = ''first metal'', color = None,
           bottom_val = None, top_val = None\<rparr>"
  have key: "color_layer_key ?row = ''metal1''" by code_simp
  have h: "map_of (layers example_defs_loaded) (color_layer_key ?row) = Some ?e"
    by (simp add: key example_defs_loaded_value)
  have ct: "color_text ?row = ''blue''" by code_simp
  have b: "coerce trunc_decimal (?row ''bottom'') = Some 1" by code_simp
  have t: "coerce trunc_decimal (?row ''top'') = Some 1" by code_simp
  from color_row_frame [OF h, of trunc_decimal] h show ?thesis
    by (auto simp: key ct b t)
qed

lemma strip_empty_iff: "strip s = [] \<longleftrightarrow> list_all is_space s"
proof
  assume "list_all is_space s"
  then have "\<forall>c \<in> set (dropWhile is_space s). is_space c"
    by (auto simp: list_all_iff dest: set_dropWhileD)
  then show "strip s = []" by (simp add: strip_def)
next
  assume "strip s = []"
  then have inner: "\<forall>c \<in> set (dropWhile is_space s). is_space c"
    by (simp add: strip_def dropWhile_eq_Nil_conv)
  have "dropWhile is_space s = []"
  proof (rule ccontr)
    assume ne: "dropWhile is_space s \<noteq> []"
    then have "\<not> is_space (hd (dropWhile is_space s))" by (rule hd_dropWhile)
    moreover from ne have "hd (dropWhile is_space s) \<in> set (dropWhile is_space s)" by simp
    ultimately show False using inner by blast
  qed
  then show "list_all is_space s" by (simp add: list_all_iff dropWhile_eq_Nil_conv)
qed

lemma strip_Nil: "strip [] = []"
  by (simp add: strip_def)

lemma color_layer_key_cell:
  "color_layer_key row = (case row ''layer'' of None \<Rightarrow> [] | Some s \<Rightarrow> strip s)"
  by (simp add: color_layer_key_def or_else_def strip_Nil split: option.splits)

lemma color_text_cell:
  "color_text row = (case row ''color'' of None \<Rightarrow> [] | Some s \<Rightarrow> strip s)"
  by (simp add: color_text_def or_else_def strip_Nil split: option.splits)

lemma color_layer_key_blank: "color_layer_key row = [] \<longleftrightarrow> blank_cell (row ''layer'')"
  by (simp add: color_layer_key_cell blank_cell_def strip_empty_iff split: option.splits)

lemma color_row_blank: "color_layer_key row = [] \<Longrightarrow> color_row to_int row lr = lr"
  by (simp add: color_row_def color_layer_key_def Let_def)

text \<open>
  C7, as the code has it. A colour row whose layer cell is missing or holds white space
  only changes nothing: no record is created. A colour row whose layer cell is not blank
  and whose layer key, the stripped cell, has no record yet appends a record for that key:
  empty \<^verbatim>\<open>name\<close>, \<^verbatim>\<open>purpose\<close> and \<^verbatim>\<open>description\<close>, no GDSII numbers, \<^verbatim>\<open>color\<close> the
  stripped colour cell (empty when the cell is missing), and \<^verbatim>\<open>bottom\<close> and \<^verbatim>\<open>top\<close>
  \<^verbatim>\<open>None\<close> for a missing or empty cell and the result of \<^verbatim>\<open>int(float(cell))\<close>
  otherwise, which is \<^verbatim>\<open>None\<close> when the conversion raises. Whatever colour rows follow,
  the record of that key keeps the empty fields, the absent numbers and the three colour
  keys.
\<close>

theorem color_row_creates_entry:
  "(blank_cell (row ''layer'') \<longrightarrow> color_row to_int row lr = lr) \<and>
   color_layer_key row = (case row ''layer'' of None \<Rightarrow> [] | Some s \<Rightarrow> strip s) \<and>
   (\<not> blank_cell (row ''layer'') \<and> map_of (layers lr) (color_layer_key row) = None \<longrightarrow>
      color_layer_key row \<noteq> [] \<and>
      layers (color_row to_int row lr) =
        layers lr @
        [(color_layer_key row,
          \<lparr>name = [], purpose = [], name_gdsii_num = None, purpose_gdsii_num = None,
           description = [],
           color = Some (case row ''color'' of None \<Rightarrow> [] | Some s \<Rightarrow> strip s),
           bottom_val =
             Some (case row ''bottom'' of
                     None \<Rightarrow> None
                   | Some s \<Rightarrow> if s = [] then None else to_int s),
           top_val =
             Some (case row ''top'' of
                     None \<Rightarrow> None
                   | Some s \<Rightarrow> if s = [] then None else to_int s)\<rparr>)] \<and>
      (\<exists>e. map_of (layers (fold (color_row to_int) (row # rest) lr)) (color_layer_key row)
             = Some e \<and>
           name e = [] \<and> purpose e = [] \<and> description e = [] \<and>
           name_gdsii_num e = None \<and> purpose_gdsii_num e = None \<and>
           color e \<noteq> None \<and> bottom_val e \<noteq> None \<and> top_val e \<noteq> None))"
proof (intro conjI impI)
  assume "blank_cell (row ''layer'')"
  then have "color_layer_key row = []" by (simp add: color_layer_key_blank)
  then show "color_row to_int row lr = lr" by (rule color_row_blank)
next
  show "color_layer_key row = (case row ''layer'' of None \<Rightarrow> [] | Some s \<Rightarrow> strip s)"
    by (rule color_layer_key_cell)
next
  assume h: "\<not> blank_cell (row ''layer'') \<and> map_of (layers lr) (color_layer_key row) = None"
  then show ne: "color_layer_key row \<noteq> []" by (simp add: color_layer_key_blank)
  from h have new: "map_of (layers lr) (color_layer_key row) = None" by simp
  let ?new = "merge_color to_int row minimal_entry"
  have step: "color_step to_int row (layers lr) = layers lr @ [(color_layer_key row, ?new)]"
    using ne new by (simp add: color_step_def dict_set_new)
  then show "layers (color_row to_int row lr) =
        layers lr @
        [(color_layer_key row,
          \<lparr>name = [], purpose = [], name_gdsii_num = None, purpose_gdsii_num = None,
           description = [],
           color = Some (case row ''color'' of None \<Rightarrow> [] | Some s \<Rightarrow> strip s),
           bottom_val =
             Some (case row ''bottom'' of
                     None \<Rightarrow> None
                   | Some s \<Rightarrow> if s = [] then None else to_int s),
           top_val =
             Some (case row ''top'' of
                     None \<Rightarrow> None
                   | Some s \<Rightarrow> if s = [] then None else to_int s)\<rparr>)]"
    by (simp add: color_row_layers merge_color_def minimal_entry_def coerce_def color_text_cell)
  have "map_of (color_step to_int row (layers lr)) (color_layer_key row) = Some ?new"
    using ne new by (simp add: map_of_color_step)
  from color_fold_frame [OF this, of to_int rest] obtain e where
    e: "map_of (fold (color_step to_int) rest (color_step to_int row (layers lr)))
          (color_layer_key row) = Some e"
      "same_definition ?new e" "has_color_keys ?new \<longrightarrow> has_color_keys e"
    by blast
  from e(3) have "has_color_keys e" by (simp add: has_color_keys_merge_color)
  with e(1,2) show "\<exists>e. map_of (layers (fold (color_row to_int) (row # rest) lr))
        (color_layer_key row) = Some e \<and>
      name e = [] \<and> purpose e = [] \<and> description e = [] \<and>
      name_gdsii_num e = None \<and> purpose_gdsii_num e = None \<and>
      color e \<noteq> None \<and> bottom_val e \<noteq> None \<and> top_val e \<noteq> None"
    by (simp add: fold_color_row_layers color_row_layers same_definition_def has_color_keys_def
        merge_color_def minimal_entry_def)
qed

theorem color_row_creates_entry_witness:
  "blank_cell (example_blank_key_row ''layer'') \<and>
   color_row trunc_decimal example_blank_key_row example_defs_loaded = example_defs_loaded \<and>
   blank_cell (example_no_layer_row ''layer'') \<and>
   color_row trunc_decimal example_no_layer_row example_defs_loaded = example_defs_loaded \<and>
   \<not> blank_cell ((example_colors ! 1) ''layer'') \<and>
   map_of (layers example_defs_loaded) (color_layer_key (example_colors ! 1)) = None \<and>
   layers (color_row trunc_decimal (example_colors ! 1) example_defs_loaded) =
     layers example_defs_loaded @
     [(''via1'',
       \<lparr>name = [], purpose = [], name_gdsii_num = None, purpose_gdsii_num = None,
        description = [], color = Some ''red'', bottom_val = Some (Some 2),
        top_val = Some None\<rparr>)]"
proof -
  let ?row = "example_colors ! 1"
  have b1: "blank_cell (example_blank_key_row ''layer'')" by code_simp
  have b2: "blank_cell (example_no_layer_row ''layer'')" by code_simp
  have nb: "\<not> blank_cell (?row ''layer'')" by code_simp
  have key: "color_layer_key ?row = ''via1''" by code_simp
  have new: "map_of (layers example_defs_loaded) (color_layer_key ?row) = None"
    unfolding key by (simp add: example_defs_loaded_value)
  have c: "(case ?row ''color'' of None \<Rightarrow> [] | Some s \<Rightarrow> strip s) = ''red''" by code_simp
  have bo: "(case ?row ''bottom'' of None \<Rightarrow> None
      | Some s \<Rightarrow> if s = [] then None else trunc_decimal s) = Some 2"
    by code_simp
  have to: "(case ?row ''top'' of None \<Rightarrow> None
      | Some s \<Rightarrow> if s = [] then None else trunc_decimal s) = None"
    by code_simp
  from color_row_creates_entry [of example_blank_key_row trunc_decimal example_defs_loaded] b1
  have r1: "color_row trunc_decimal example_blank_key_row example_defs_loaded =
      example_defs_loaded"
    by blast
  from color_row_creates_entry [of example_no_layer_row trunc_decimal example_defs_loaded] b2
  have r2: "color_row trunc_decimal example_no_layer_row example_defs_loaded =
      example_defs_loaded"
    by blast
  from color_row_creates_entry [of ?row trunc_decimal example_defs_loaded "[]"] nb new
  have "layers (color_row trunc_decimal ?row example_defs_loaded) =
      layers example_defs_loaded @
      [(color_layer_key ?row,
        \<lparr>name = [], purpose = [], name_gdsii_num = None, purpose_gdsii_num = None,
         description = [],
         color = Some (case ?row ''color'' of None \<Rightarrow> [] | Some s \<Rightarrow> strip s),
         bottom_val =
           Some (case ?row ''bottom'' of
                   None \<Rightarrow> None
                 | Some s \<Rightarrow> if s = [] then None else trunc_decimal s),
         top_val =
           Some (case ?row ''top'' of
                   None \<Rightarrow> None
                 | Some s \<Rightarrow> if s = [] then None else trunc_decimal s)\<rparr>)]"
    by blast
  then have r3: "layers (color_row trunc_decimal ?row example_defs_loaded) =
     layers example_defs_loaded @
     [(''via1'',
       \<lparr>name = [], purpose = [], name_gdsii_num = None, purpose_gdsii_num = None,
        description = [], color = Some ''red'', bottom_val = Some (Some 2),
        top_val = Some None\<rparr>)]"
    by (simp only: key c bo to)
  from b1 r1 b2 r2 nb new r3 show ?thesis by blast
qed

text \<open>
  C7 as stated fails twice. A colour row whose layer cell is blank has a key, the empty
  string, that is not in the table, and \<^verbatim>\<open>_load_layer_color\<close> skips it: no record is
  created. And the record created for a row whose \<^verbatim>\<open>bottom\<close> cell is \<^verbatim>\<open>abc\<close> and
  which has no \<^verbatim>\<open>top\<close> cell holds \<^verbatim>\<open>None\<close> for both: the values are absent, not
  present.
\<close>

theorem color_row_creates_entry_counterexample:
  "map_of (layers example_defs_loaded) (color_layer_key example_blank_key_row) = None \<and>
   layers (color_row trunc_decimal example_blank_key_row example_defs_loaded) =
     layers example_defs_loaded \<and>
   map_of (layers (color_row trunc_decimal example_blank_key_row example_defs_loaded))
     (color_layer_key example_blank_key_row) = None \<and>
   map_of (layers example_defs_loaded) (color_layer_key example_no_extent_row) = None \<and>
   map_option (\<lambda>e. (info_get (bottom_val e), info_get (top_val e)))
     (map_of (layers (color_row trunc_decimal example_no_extent_row example_defs_loaded))
        (color_layer_key example_no_extent_row)) = Some (None, None)"
  by code_simp


section \<open>Missing and empty files\<close>

lemma printed_mapping_lines:
  "msg \<in> set (printed (snd (mapping_lines n ls st))) \<Longrightarrow>
   msg \<in> set (printed st) \<or> (\<exists>i l. msg = InvalidLine i l)"
  by (induction n ls st rule: mapping_lines.induct)
     (auto simp: Let_def split: option.splits if_splits)

lemma printed_mapping_lines_mono:
  "set (printed st) \<subseteq> set (printed (snd (mapping_lines n ls st)))"
  by (induction n ls st rule: mapping_lines.induct)
     (auto simp: Let_def split: option.splits if_splits)

lemma NotFound_load_layer_mapping:
  "NotFound x \<in> set (printed (load_layer_mapping src st)) \<longleftrightarrow>
   NotFound x \<in> set (printed st) \<or> (src = None \<and> x = MappingFile)"
proof (cases src)
  case None
  then show ?thesis by (auto simp: load_layer_mapping_def)
next
  case (Some ls)
  let ?st = "st\<lparr>layer_mapping := []\<rparr>"
  obtain e st' where r: "mapping_lines 1 ls ?st = (e, st')"
    by (cases "mapping_lines 1 ls ?st")
  have "NotFound x \<in> set (printed st') \<longleftrightarrow> NotFound x \<in> set (printed st)"
    using printed_mapping_lines [of "NotFound x" 1 ls ?st]
      printed_mapping_lines_mono [of ?st 1 ls] r
    by auto
  with Some r show ?thesis by (auto simp: load_layer_mapping_def split: option.splits)
qed

lemma NotFound_def_row:
  "NotFound x \<in> set (printed (def_row row st)) \<longleftrightarrow> NotFound x \<in> set (printed st)"
  by (simp add: def_row_def Let_def split: option.splits)

lemma NotFound_fold_def_row:
  "NotFound x \<in> set (printed (fold def_row rows st)) \<longleftrightarrow> NotFound x \<in> set (printed st)"
  by (induction rows arbitrary: st) (simp_all add: NotFound_def_row)

lemma NotFound_load_layer_def:
  "NotFound x \<in> set (printed (load_layer_def src st)) \<longleftrightarrow>
   NotFound x \<in> set (printed st) \<or> (src = None \<and> x = DefFile)"
  by (cases src) (auto simp: load_layer_def_def NotFound_fold_def_row)

lemma printed_load_layer_color: "printed (load_layer_color f src st) = printed st"
  by (cases src) (simp_all add: load_layer_color_def fold_color_row_rest)

lemma LayerReader_missing_or_empty:
  "LayerReader to_int (if d then None else Some []) (if c then None else Some [])
     (if m then None else Some []) =
   \<lparr>layer_mapping = [], layers = [],
    printed = (if m then [NotFound MappingFile] else []) @ (if d then [NotFound DefFile] else [])\<rparr>"
  by (simp add: LayerReader_def load_layer_color_def load_layer_def_def load_layer_mapping_def
      new_reader_def)

text \<open>
  C4. Constructing the reader never fails. When each of the three files is missing or
  empty, the result is the empty table and the empty mapping, with one warning for a
  missing mapping file and one for a missing definition file, and none for the colour
  file. Whatever the files hold, the missing-file warning of the mapping file and of the
  definition file is printed exactly when that file is missing, and no such warning is ever
  printed for the colour file.
\<close>

theorem load_never_fatal:
  "LayerReader to_int (if def_missing then None else Some [])
       (if color_missing then None else Some []) (if mapping_missing then None else Some []) =
     \<lparr>layer_mapping = [], layers = [],
      printed = (if mapping_missing then [NotFound MappingFile] else []) @
                (if def_missing then [NotFound DefFile] else [])\<rparr> \<and>
   (NotFound MappingFile \<in> set (printed (LayerReader to_int dfile cfile mfile))) = (mfile = None) \<and>
   (NotFound DefFile \<in> set (printed (LayerReader to_int dfile cfile mfile))) = (dfile = None) \<and>
   NotFound ColorFile \<notin> set (printed (LayerReader to_int dfile cfile mfile)) \<and>
   load_layer_color to_int None lr = lr"
proof -
  have p: "NotFound x \<in> set (printed (LayerReader to_int dfile cfile mfile)) \<longleftrightarrow>
      (mfile = None \<and> x = MappingFile) \<or> (dfile = None \<and> x = DefFile)" for x
    by (simp add: LayerReader_def printed_load_layer_color NotFound_load_layer_def
        NotFound_load_layer_mapping new_reader_def)
  have "load_layer_color to_int None lr = lr" by (simp add: load_layer_color_def)
  with p [of MappingFile] p [of DefFile] p [of ColorFile] show ?thesis
    by (simp add: LayerReader_missing_or_empty)
qed


section \<open>The height of a layer with equal bottom and top\<close>

lemma round53_0: "round53 0 = 0"
  by (simp add: round53_def round_nat53_def)

lemma py_float_0: "py_float 0 = Inr (Fin 0)"
  by (simp add: py_float_def round53_0)

lemma float_mul_0: "float_mul (Fin 0) z_scale = Fin 0"
  by (simp add: z_scale_def float_of_product_def round53_0)

text \<open>The product is rounded as the float product is: for \<open>2^53 + 2\<close> the scaled value
  is not the exact \<open>900719925474099400\<close>.\<close>

lemma bit_length_example: "bit_length 900719925474099400 = 60"
  by (simp add: bit_length.simps)

lemma float_mul_rounds: "float_mul (Fin (2 ^ 53 + 2)) z_scale = Fin 900719925474099456"
  by (simp add: z_scale_def float_of_product_def round53_def round_nat53_def
      bit_length_example Let_def)

lemma py_float_is_float_int: "is_float_int v \<Longrightarrow> py_float v = Inr (Fin v)"
  by (simp add: is_float_int_def py_float_def)

lemma bottom_top_entry_equal:
  "info_get (bottom_val info) = Some v \<Longrightarrow> info_get (top_val info) = Some v \<Longrightarrow>
   bottom_top_entry info =
     (case py_float v of Inl e \<Rightarrow> Inl e | Inr f \<Rightarrow> Inr (float_mul f z_scale, Fin 1))"
  by (simp add: bottom_top_entry_def py_float_0 float_mul_0 split: sum.splits)

lemma bottom_top_items_lookup:
  "bottom_top_items items acc = Inr table \<Longrightarrow> distinct (map fst items) \<Longrightarrow>
   map_of items k = Some info \<Longrightarrow>
   \<exists>v. bottom_top_entry info = Inr v \<and> map_of table k = Some v"
proof (induction items arbitrary: acc)
  case Nil
  then show ?case by simp
next
  case (Cons p items)
  obtain k0 i0 where p: "p = (k0, i0)" by (cases p)
  from Cons.prems(1) p obtain v0 where
    v0: "bottom_top_entry i0 = Inr v0"
    and rest: "bottom_top_items items (dict_set k0 v0 acc) = Inr table"
    by (auto split: sum.splits)
  from Cons.prems(2) p have d: "distinct (map fst items)" and fresh: "k0 \<notin> fst ` set items"
    by simp_all
  show ?case
  proof (cases "k = k0")
    case True
    with Cons.prems(3) p have i: "info = i0" by simp
    from fresh have none: "map_of items k0 = None" by (simp add: map_of_None_iff_keys)
    have keep: "bottom_top_items items acc' = Inr table \<Longrightarrow> map_of items k0 = None \<Longrightarrow>
        map_of table k0 = map_of acc' k0" for acc'
    proof (induction items arbitrary: acc')
      case Nil
      then show ?case by simp
    next
      case (Cons q items)
      obtain k1 i1 where q: "q = (k1, i1)" by (cases q)
      from Cons.prems(2) q have ne: "k0 \<noteq> k1" and none': "map_of items k0 = None"
        by (auto split: if_splits)
      from Cons.prems(1) q obtain v1 where
        "bottom_top_items items (dict_set k1 v1 acc') = Inr table"
        by (auto split: sum.splits)
      from Cons.IH [OF this none'] ne show ?case by (simp add: map_of_dict_set)
    qed
    from keep [OF rest none] have "map_of table k0 = Some v0" by (simp add: map_of_dict_set)
    with True i v0 show ?thesis by simp
  next
    case False
    with Cons.prems(3) p have "map_of items k = Some info" by simp
    from Cons.IH [OF rest d this] show ?thesis .
  qed
qed

text \<open>
  C9. For a record of a constructed reader whose \<^verbatim>\<open>bottom\<close> and \<^verbatim>\<open>top\<close> are the same
  integer \<open>v\<close>, as happens when both cells of the colour file coerce to \<open>v\<close>, the height
  derived by \<^verbatim>\<open>model_main.py\<close> is the fixed 1.0, never zero: the entry is
  \<open>(float(v) * z_scale, 1.0)\<close>, or the \<^verbatim>\<open>OverflowError\<close> of \<^verbatim>\<open>float(v)\<close>, which does not
  occur for an integer that a float holds, as every value of \<^verbatim>\<open>int(float(s))\<close> is. When
  the loop that builds \<^verbatim>\<open>bottom_top\<close> completes, the table holds height 1.0 for the key.
\<close>

theorem equal_extent_height:
  assumes "map_of (layers (LayerReader to_int dfile cfile mfile)) key = Some info"
    and "info_get (bottom_val info) = Some v"
    and "info_get (top_val info) = Some v"
  shows "bottom_top_entry info =
           (case py_float v of
              Inl e \<Rightarrow> Inl e
            | Inr f \<Rightarrow> Inr (float_mul f z_scale, Fin 1)) \<and>
         (is_float_int v \<longrightarrow>
            bottom_top_entry info = Inr (float_mul (Fin v) z_scale, Fin 1)) \<and>
         (\<forall>table. bottom_top (LayerReader to_int dfile cfile mfile) = Inr table \<longrightarrow>
            (\<exists>z0. map_of table key = Some (z0, Fin 1)))"
proof (intro conjI impI allI)
  show e: "bottom_top_entry info =
      (case py_float v of Inl e \<Rightarrow> Inl e | Inr f \<Rightarrow> Inr (float_mul f z_scale, Fin 1))"
    using assms(2,3) by (rule bottom_top_entry_equal)
  {
    assume "is_float_int v"
    then show "bottom_top_entry info = Inr (float_mul (Fin v) z_scale, Fin 1)"
      by (simp add: e py_float_is_float_int)
  }
  {
    fix table
    assume t: "bottom_top (LayerReader to_int dfile cfile mfile) = Inr table"
    have d: "distinct (map fst (layers (LayerReader to_int dfile cfile mfile)))"
      by (simp add: LayerReader_layers distinct_fold_color_step distinct_fold_def_step)
    from t have "bottom_top_items (layers (LayerReader to_int dfile cfile mfile)) [] = Inr table"
      by (simp add: bottom_top_def)
    from bottom_top_items_lookup [OF this d assms(1)] obtain w where
      w: "bottom_top_entry info = Inr w" "map_of table key = Some w"
      by blast
    from w(1) e have "snd w = Fin 1" by (auto split: sum.splits)
    with w(2) show "\<exists>z0. map_of table key = Some (z0, Fin 1)"
      by (cases w) auto
  }
qed

theorem equal_extent_height_witness:
  "coerce trunc_decimal (Some ''1.5'') = Some 1 \<and>
   map_of (layers example_reader) ''metal1'' =
     Some \<lparr>name = ''M1'', purpose = ''drawing'', name_gdsii_num = Some 10,
           purpose_gdsii_num = Some 0, description = ''first metal'', color = Some ''blue'',
           bottom_val = Some (Some 1), top_val = Some (Some 1)\<rparr> \<and>
   is_float_int 1 \<and>
   bottom_top example_reader =
     Inr [(''metal1'', (Fin 100, Fin 1)), (''via1'', (Fin 0, Fin 1))] \<and>
   (\<exists>z0. map_of [(''metal1'', (Fin 100, Fin 1)), (''via1'', (Fin 0, Fin 1))] ''metal1'' =
      Some (z0, Fin 1))"
proof -
  let ?e = "\<lparr>name = ''M1'', purpose = ''drawing'', name_gdsii_num = Some 10,
           purpose_gdsii_num = Some 0, description = ''first metal'', color = Some ''blue'',
           bottom_val = Some (Some 1), top_val = Some (Some 1)\<rparr>"
  let ?table = "[(''metal1'', (Fin 100, Fin 1)), (''via1'', (Fin 0, Fin 1))]"
  have c: "coerce trunc_decimal (Some ''1.5'') = Some 1" by code_simp
  have m: "map_of (layers example_reader) ''metal1'' = Some ?e"
    by (simp add: example_reader_value)
  have b: "info_get (bottom_val ?e) = Some 1" and t: "info_get (top_val ?e) = Some 1"
    by (simp_all add: info_get_def)
  have r: "round53 1 = 1" "round53 0 = 0" "round53 100 = 100"
    by (simp_all add: round53_def round_nat53_def)
  have f: "is_float_int 1" by (simp add: is_float_int_def r)
  have tab: "bottom_top example_reader = Inr ?table"
    by (simp add: bottom_top_def example_reader_value bottom_top_entry_def info_get_def
        py_float_def z_scale_def float_of_product_def r)
  have "\<forall>table. bottom_top example_reader = Inr table \<longrightarrow>
      (\<exists>z0. map_of table ''metal1'' = Some (z0, Fin 1))"
    using equal_extent_height [OF m [unfolded example_reader_def] b t]
    unfolding example_reader_def by (rule conjunct2 [THEN conjunct2])
  with tab have "\<exists>z0. map_of ?table ''metal1'' = Some (z0, Fin 1)" by simp
  with c m f tab show ?thesis by simp
qed


section \<open>Lines of the mapping file\<close>

lemma mapping_table_append:
  "mapping_table (xs @ ys) m =
     (case mapping_table xs m of
        (None, m') \<Rightarrow> mapping_table ys m'
      | (Some e, m') \<Rightarrow> (Some e, m'))"
  by (induction xs arbitrary: m) (simp_all add: Let_def split: option.splits prod.splits)

lemma mapping_table_short_line: "short_line l \<Longrightarrow> mapping_table (l # ls) m = mapping_table ls m"
  by (simp add: short_line_def Let_def)

lemma mapping_table_drop_short_line:
  assumes "short_line bad"
  shows "mapping_table (pre @ bad # post) m = mapping_table (pre @ post) m"
proof -
  have "mapping_table (bad # post) m' = mapping_table post m'" for m'
    using assms by (rule mapping_table_short_line)
  then show ?thesis
    by (simp add: mapping_table_append del: mapping_table.simps
        split: prod.splits option.splits)
qed

lemma mapping_lines_append:
  "mapping_lines n (xs @ ys) st =
     (case mapping_lines n xs st of
        (None, st') \<Rightarrow> mapping_lines (n + length xs) ys st'
      | (Some e, st') \<Rightarrow> (Some e, st'))"
  by (induction xs arbitrary: n st) (simp_all add: Let_def split: option.splits prod.splits)

lemma mapping_lines_short_line:
  "short_line l \<Longrightarrow>
   mapping_lines n (l # ls) st =
     mapping_lines (Suc n) ls (st\<lparr>printed := printed st @ [InvalidLine n (strip l)]\<rparr>)"
  by (simp add: short_line_def Let_def)

lemma printed_load_layer_mapping:
  "set (printed (snd (mapping_lines 1 ls (st\<lparr>layer_mapping := []\<rparr>))))
     \<subseteq> set (printed (load_layer_mapping (Some ls) st))"
  by (cases "mapping_lines 1 ls (st\<lparr>layer_mapping := []\<rparr>)")
     (auto simp: load_layer_mapping_def split: option.splits)

text \<open>
  C2. A malformed line of the mapping file, one that is neither blank nor a comment and
  has fewer than four white-space separated fields, such as \<^verbatim>\<open>foo bar\<close>, is skipped, and
  only that line: the mapping table and the outcome of the loop are those of the file
  without the line, so the line neither raises nor keeps a later line out of the table.
  When the loop reaches the line, the warning with its line number and text is printed.
\<close>

theorem short_line_skipped:
  assumes "short_line bad"
  shows "layer_mapping (load_layer_mapping (Some (pre @ bad # post)) lr) =
           layer_mapping (load_layer_mapping (Some (pre @ post)) lr) \<and>
         mapping_table (pre @ bad # post) m = mapping_table (pre @ post) m \<and>
         (fst (mapping_table pre []) = None \<longrightarrow>
            InvalidLine (Suc (length pre)) (strip bad)
              \<in> set (printed (load_layer_mapping (Some (pre @ bad # post)) lr)))"
proof (intro conjI impI)
  show "layer_mapping (load_layer_mapping (Some (pre @ bad # post)) lr) =
        layer_mapping (load_layer_mapping (Some (pre @ post)) lr)"
    using assms by (simp add: load_layer_mapping_table mapping_table_drop_short_line)
  show "mapping_table (pre @ bad # post) m = mapping_table (pre @ post) m"
    using assms by (rule mapping_table_drop_short_line)
next
  assume reached: "fst (mapping_table pre []) = None"
  let ?st = "lr\<lparr>layer_mapping := []\<rparr>"
  let ?w = "InvalidLine (Suc (length pre)) (strip bad)"
  obtain e st' where r: "mapping_lines 1 pre ?st = (e, st')"
    by (cases "mapping_lines 1 pre ?st")
  have "e = fst (mapping_table pre (layer_mapping ?st))"
    using mapping_lines_table [of 1 pre ?st] r by simp
  with reached have e: "e = None" by simp
  let ?st'' = "st'\<lparr>printed := printed st' @ [?w]\<rparr>"
  have step: "mapping_lines (Suc (length pre)) (bad # post) st' =
      mapping_lines (Suc (Suc (length pre))) post ?st''"
    using assms by (rule mapping_lines_short_line)
  have run: "mapping_lines 1 (pre @ bad # post) ?st =
      mapping_lines (Suc (Suc (length pre))) post ?st''"
    using r e step
    by (simp add: mapping_lines_append del: mapping_lines.simps split: prod.splits option.splits)
  have "?w \<in> set (printed ?st'')" by simp
  then have "?w \<in> set (printed (snd (mapping_lines (Suc (Suc (length pre))) post ?st'')))"
    using printed_mapping_lines_mono [of ?st'' "Suc (Suc (length pre))" post] by blast
  with run have "?w \<in> set (printed (snd (mapping_lines 1 (pre @ bad # post) ?st)))"
    by simp
  with printed_load_layer_mapping [of "pre @ bad # post" lr]
  show "?w \<in> set (printed (load_layer_mapping (Some (pre @ bad # post)) lr))"
    by blast
qed

theorem short_line_skipped_witness:
  "short_line ''foo bar'' \<and>
   fst (mapping_table [''M1 drawing 10 0''] []) = None \<and>
   layer_mapping
     (load_layer_mapping (Some [''M1 drawing 10 0'', ''foo bar'', ''VIA1 drawing 20 0''])
        new_reader) =
     [((''M1'', ''drawing''), (10, 0)), ((''VIA1'', ''drawing''), (20, 0))] \<and>
   InvalidLine 2 ''foo bar''
     \<in> set (printed
         (load_layer_mapping (Some [''M1 drawing 10 0'', ''foo bar'', ''VIA1 drawing 20 0''])
            new_reader))"
proof -
  have s: "short_line ''foo bar''" by code_simp
  have p: "fst (mapping_table [''M1 drawing 10 0''] []) = None" by code_simp
  have st: "strip ''foo bar'' = ''foo bar''" by code_simp
  have rest: "layer_mapping
      (load_layer_mapping (Some [''M1 drawing 10 0'', ''VIA1 drawing 20 0'']) new_reader) =
      [((''M1'', ''drawing''), (10, 0)), ((''VIA1'', ''drawing''), (20, 0))]"
    by code_simp
  note t = short_line_skipped [OF s, of "[''M1 drawing 10 0'']" "[''VIA1 drawing 20 0'']"
      new_reader "[]"]
  from t have "layer_mapping
      (load_layer_mapping (Some ([''M1 drawing 10 0''] @ ''foo bar'' # [''VIA1 drawing 20 0'']))
         new_reader) =
      layer_mapping
        (load_layer_mapping (Some ([''M1 drawing 10 0''] @ [''VIA1 drawing 20 0''])) new_reader)"
    by (rule conjunct1)
  with rest have table: "layer_mapping
      (load_layer_mapping (Some [''M1 drawing 10 0'', ''foo bar'', ''VIA1 drawing 20 0''])
         new_reader) =
      [((''M1'', ''drawing''), (10, 0)), ((''VIA1'', ''drawing''), (20, 0))]"
    by simp
  from t p have "InvalidLine (Suc (length [''M1 drawing 10 0''])) (strip ''foo bar'')
      \<in> set (printed
          (load_layer_mapping
             (Some ([''M1 drawing 10 0''] @ ''foo bar'' # [''VIA1 drawing 20 0'']))
             new_reader))"
    by blast
  then have warning: "InvalidLine 2 ''foo bar''
      \<in> set (printed
          (load_layer_mapping (Some [''M1 drawing 10 0'', ''foo bar'', ''VIA1 drawing 20 0''])
             new_reader))"
    by (simp add: st numeral_2_eq_2)
  from s p table warning show ?thesis by blast
qed

section \<open>A line with four fields and a number that is not an integer\<close>

text \<open>
  Such a line is not one of the malformed lines above. \<^verbatim>\<open>int\<close> raises inside the loop,
  the handler around the whole loop prints the error, and no later line is read; the
  entries stored before stay.
\<close>

lemma non_integer_line_stops_loop:
  assumes "malformed_line l" and "\<not> short_line l"
  shows "mapping_table (l # ls) m = (Some ValueError, m)"
  using assms
  by (auto simp: malformed_line_def short_line_def Let_def split: option.splits)

lemma non_integer_line_example:
  "malformed_line ''M1 drawing ten 0'' \<and> \<not> short_line ''M1 drawing ten 0'' \<and>
   load_layer_mapping (Some [''M1 drawing ten 0'', ''M2 drawing 11 0'']) new_reader =
     \<lparr>layer_mapping = [], layers = [], printed = [ErrorReading MappingFile ValueError]\<rparr> \<and>
   load_layer_mapping (Some [''M2 drawing 11 0'']) new_reader =
     \<lparr>layer_mapping = [((''M2'', ''drawing''), (11, 0))], layers = [], printed = []\<rparr>"
  by code_simp


section \<open>Definition rows without a mapping entry\<close>

lemma def_step_unmapped:
  "map_of m (def_name row, def_purpose row) = None \<Longrightarrow> def_step m row ls = ls"
  by (simp add: def_step_def)

lemma def_step_cases:
  "(\<not> def_resolves m row \<and> def_step m row ls = ls) \<or>
   (def_resolves m row \<and>
    (\<exists>nums. def_step m row ls = dict_set (def_layer_key row) (def_entry row nums) ls))"
  by (auto simp: def_step_def def_resolves_def split: option.splits)

lemma keys_def_step:
  "fst ` set (def_step m row ls) =
     fst ` set ls \<union> (if def_resolves m row then {def_layer_key row} else {})"
proof -
  from def_step_cases [of m row ls] show ?thesis
  proof (elim disjE conjE exE)
    assume "\<not> def_resolves m row" and "def_step m row ls = ls"
    then show ?thesis by simp
  next
    fix nums
    assume "def_resolves m row"
      and "def_step m row ls = dict_set (def_layer_key row) (def_entry row nums) ls"
    then show ?thesis by (simp add: keys_dict_set)
  qed
qed

lemma keys_fold_def_step:
  "fst ` set (fold (def_step m) rows ls) =
     fst ` set ls \<union> def_layer_key ` {r \<in> set rows. def_resolves m r}"
proof (induction rows arbitrary: ls)
  case Nil
  show ?case by simp
next
  case (Cons r rows)
  have "fst ` set (fold (def_step m) (r # rows) ls) =
      fst ` set (def_step m r ls) \<union> def_layer_key ` {r \<in> set rows. def_resolves m r}"
    using Cons.IH [of "def_step m r ls"] by simp
  then show ?case by (auto simp: keys_def_step split: if_splits)
qed

lemma keys_color_step:
  "fst ` set (color_step f row ls) =
     fst ` set ls \<union> (if color_layer_key row = [] then {} else {color_layer_key row})"
  by (simp add: color_step_def keys_dict_set)

lemma keys_fold_color_step:
  "fst ` set (fold (color_step f) rows ls) \<subseteq> fst ` set ls \<union> color_layer_key ` set rows"
proof (induction rows arbitrary: ls)
  case Nil
  show ?case by simp
next
  case (Cons r rows)
  have "fst ` set (fold (color_step f) (r # rows) ls) \<subseteq>
      fst ` set (color_step f r ls) \<union> color_layer_key ` set rows"
    using Cons.IH [of "color_step f r ls"] by simp
  then show ?case by (auto simp: keys_color_step split: if_splits)
qed

lemma numbers_def_step:
  assumes "(k, e) \<in> set (def_step m row ls)" and "name_gdsii_num e = None"
  shows "(k, e) \<in> set ls"
proof -
  from def_step_cases [of m row ls] consider "def_step m row ls = ls"
    | nums where "def_step m row ls = dict_set (def_layer_key row) (def_entry row nums) ls"
    by blast
  then show ?thesis
  proof cases
    case 1
    with assms show ?thesis by simp
  next
    case 2
    with assms(1) set_dict_set [of "def_layer_key row" "def_entry row nums" ls]
    have "(k, e) = (def_layer_key row, def_entry row nums) \<or> (k, e) \<in> set ls" by auto
    with assms(2) show ?thesis by (auto simp: def_entry_def)
  qed
qed

lemma numbers_fold_def_step:
  "(k, e) \<in> set (fold (def_step m) rows ls) \<Longrightarrow> name_gdsii_num e = None \<Longrightarrow>
   (k, e) \<in> set ls"
proof (induction rows arbitrary: ls)
  case Nil
  then show ?case by simp
next
  case (Cons r rows)
  from Cons.prems have "(k, e) \<in> set (fold (def_step m) rows (def_step m r ls))" by simp
  then have "(k, e) \<in> set (def_step m r ls)" using Cons.prems(2) by (rule Cons.IH)
  then show ?case using Cons.prems(2) by (rule numbers_def_step)
qed

lemma color_key_or_old:
  "(k, e) \<in> set (fold (color_step f) rows ls) \<Longrightarrow> name_gdsii_num e = None \<Longrightarrow>
   k \<in> color_layer_key ` set rows \<or> (\<exists>e0. (k, e0) \<in> set ls \<and> name_gdsii_num e0 = None)"
proof (induction rows arbitrary: ls)
  case Nil
  then show ?case by auto
next
  case (Cons r rows)
  from Cons.prems have "(k, e) \<in> set (fold (color_step f) rows (color_step f r ls))" by simp
  from Cons.IH [OF this Cons.prems(2)] consider "k \<in> color_layer_key ` set rows"
    | e0 where "(k, e0) \<in> set (color_step f r ls)" "name_gdsii_num e0 = None"
    by blast
  then show ?case
  proof cases
    case 1
    then show ?thesis by simp
  next
    case 2
    show ?thesis
    proof (cases "color_layer_key r = []")
      case True
      with 2 show ?thesis by (auto simp: color_step_def)
    next
      case False
      let ?v = "merge_color f r
        (case map_of ls (color_layer_key r) of None \<Rightarrow> minimal_entry | Some e \<Rightarrow> e)"
      from False have "color_step f r ls = dict_set (color_layer_key r) ?v ls"
        by (simp add: color_step_def)
      with 2(1) set_dict_set [of "color_layer_key r" ?v ls]
      have "k = color_layer_key r \<or> (k, e0) \<in> set ls" by auto
      with 2(2) show ?thesis by auto
    qed
  qed
qed

text \<open>
  C1, as the code has it. A definition row whose (name, purpose) pair has no entry in the
  mapping table is dropped: the table of the reader is the one built without the row. So
  the row's layer key has no record unless another definition row with that key resolves
  or a colour row names the key, and a record of that key with absent GDSII numbers can
  only come from a colour row.
\<close>

theorem unmapped_row_dropped:
  assumes "map_of (layer_mapping (load_layer_mapping mfile new_reader))
             (def_name row, def_purpose row) = None"
  shows "layers (LayerReader to_int (Some (pre @ row # post)) cfile mfile) =
           layers (LayerReader to_int (Some (pre @ post)) cfile mfile) \<and>
         ((\<forall>r \<in> set (pre @ post).
              def_layer_key r = def_layer_key row \<longrightarrow>
              \<not> def_resolves (layer_mapping (load_layer_mapping mfile new_reader)) r) \<and>
          (\<forall>r \<in> set (rows_of cfile). color_layer_key r \<noteq> def_layer_key row) \<longrightarrow>
          map_of (layers (LayerReader to_int (Some (pre @ row # post)) cfile mfile))
            (def_layer_key row) = None) \<and>
         (\<forall>e. map_of (layers (LayerReader to_int (Some (pre @ row # post)) cfile mfile))
                (def_layer_key row) = Some e \<and> name_gdsii_num e = None \<longrightarrow>
              (\<exists>r \<in> set (rows_of cfile). color_layer_key r = def_layer_key row))"
proof (intro conjI impI allI)
  let ?m = "layer_mapping (load_layer_mapping mfile new_reader)"
  let ?with = "LayerReader to_int (Some (pre @ row # post)) cfile mfile"
  let ?d = "fold (def_step ?m) (pre @ post) []"
  have dropped: "fold (def_step ?m) (pre @ row # post) [] = ?d"
    using assms by (simp add: def_step_unmapped)
  have table: "layers ?with = fold (color_step to_int) (rows_of cfile) ?d"
    by (simp add: LayerReader_layers rows_of_def dropped del: fold_append)
  show "layers ?with = layers (LayerReader to_int (Some (pre @ post)) cfile mfile)"
    by (simp add: table) (simp add: LayerReader_layers rows_of_def)
  {
    assume h: "(\<forall>r \<in> set (pre @ post).
              def_layer_key r = def_layer_key row \<longrightarrow> \<not> def_resolves ?m r) \<and>
          (\<forall>r \<in> set (rows_of cfile). color_layer_key r \<noteq> def_layer_key row)"
    have "def_layer_key row \<notin> fst ` set ?d"
      using h by (auto simp: keys_fold_def_step)
    moreover have "def_layer_key row \<notin> color_layer_key ` set (rows_of cfile)"
      using h by auto
    ultimately have "def_layer_key row \<notin> fst ` set (layers ?with)"
      using keys_fold_color_step [of to_int "rows_of cfile" ?d] by (auto simp: table)
    then show "map_of (layers ?with) (def_layer_key row) = None"
      by (simp add: map_of_None_iff_keys)
  }
  {
    fix e
    assume "map_of (layers ?with) (def_layer_key row) = Some e \<and> name_gdsii_num e = None"
    then have mem: "(def_layer_key row, e) \<in> set (layers ?with)" and none: "name_gdsii_num e = None"
      by (auto dest: map_of_SomeD)
    from mem have "(def_layer_key row, e) \<in> set (fold (color_step to_int) (rows_of cfile) ?d)"
      by (simp add: table)
    from color_key_or_old [OF this none]
    consider "def_layer_key row \<in> color_layer_key ` set (rows_of cfile)"
      | e0 where "(def_layer_key row, e0) \<in> set ?d" "name_gdsii_num e0 = None"
      by blast
    then show "\<exists>r \<in> set (rows_of cfile). color_layer_key r = def_layer_key row"
    proof cases
      case 1
      then show ?thesis by auto
    next
      case 2
      from numbers_fold_def_step [OF 2] show ?thesis by simp
    qed
  }
qed

theorem unmapped_row_dropped_witness:
  "map_of (layer_mapping (load_layer_mapping (Some example_mapping) new_reader))
     (def_name (example_defs ! 1), def_purpose (example_defs ! 1)) = None \<and>
   layers (LayerReader trunc_decimal (Some [example_defs ! 0, example_defs ! 1])
             (Some example_colors) (Some example_mapping)) =
     layers (LayerReader trunc_decimal (Some [example_defs ! 0]) (Some example_colors)
               (Some example_mapping)) \<and>
   map_of (layers (LayerReader trunc_decimal (Some [example_defs ! 0, example_defs ! 1])
                     (Some example_colors) (Some example_mapping)))
     (def_layer_key (example_defs ! 1)) = None"
proof -
  let ?m = "layer_mapping (load_layer_mapping (Some example_mapping) new_reader)"
  have h: "map_of ?m (def_name (example_defs ! 1), def_purpose (example_defs ! 1)) = None"
    by code_simp
  have others: "\<forall>r \<in> set ([example_defs ! 0] @ []).
      def_layer_key r = def_layer_key (example_defs ! 1) \<longrightarrow> \<not> def_resolves ?m r"
    by code_simp
  have colors: "\<forall>r \<in> set (rows_of (Some example_colors)).
      color_layer_key r \<noteq> def_layer_key (example_defs ! 1)"
    by code_simp
  note t = unmapped_row_dropped [OF h, of trunc_decimal "[example_defs ! 0]" "[]"
      "Some example_colors"]
  from t have a: "layers (LayerReader trunc_decimal (Some ([example_defs ! 0] @ example_defs ! 1 # []))
             (Some example_colors) (Some example_mapping)) =
     layers (LayerReader trunc_decimal (Some ([example_defs ! 0] @ [])) (Some example_colors)
               (Some example_mapping))"
    by (rule conjunct1)
  from t others colors
  have b: "map_of (layers (LayerReader trunc_decimal (Some ([example_defs ! 0] @ example_defs ! 1 # []))
                     (Some example_colors) (Some example_mapping)))
     (def_layer_key (example_defs ! 1)) = None"
    by blast
  from h a b show ?thesis by simp
qed

text \<open>
  C1 as stated fails when two definition rows share a layer key: the second row of the
  example has no mapping entry and no colour file exists, yet the table holds a record
  for its layer key, the one the first row stored.
\<close>

theorem unmapped_row_dropped_counterexample:
  "map_of (layer_mapping (load_layer_mapping (Some example_mapping) new_reader))
     (def_name (example_duplicate_defs ! 1), def_purpose (example_duplicate_defs ! 1)) = None \<and>
   map_of (layers (LayerReader trunc_decimal (Some example_duplicate_defs) None
                     (Some example_mapping)))
     (def_layer_key (example_duplicate_defs ! 1)) =
     Some \<lparr>name = ''M1'', purpose = ''drawing'', name_gdsii_num = Some 10,
           purpose_gdsii_num = Some 0, description = [], color = None,
           bottom_val = None, top_val = None\<rparr>"
  by code_simp


end
